theory Spec2Isabelle
  imports Main
begin

unbundle bit_operations_syntax

section \<open>Errors\<close>

text \<open>The Python exceptions that the modelled code can raise. An exception is a value:
  a fallible function returns \<open>error + 'a\<close> with \<open>Inl\<close> for the raise.\<close>

datatype error =
    ClientError string
  | KeyError string
  | TypeError
  | AttributeError
  | AssertionError
  | IndexError

section \<open>Version history (project_history_dock.py)\<close>

subsection \<open>Data\<close>

text \<open>A version as the server lists it: the dictionary entries the dock reads.\<close>

record version =
  name :: string
  author :: string
  created :: string

text \<open>What the table model tells its views: \<open>beginInsertRows(parent, first, last)\<close>
  followed by \<open>endInsertRows()\<close>, and \<open>layoutChanged\<close>.\<close>

datatype model_signal = RowsInserted int int | LayoutChanged

text \<open>\<open>VersionsTableModel\<close>: the deque of versions, newest first, and the name of the
  version that is checked out locally. The fields \<open>oldest\<close> and \<open>latest\<close> of the class
  are set to \<open>None\<close> by the constructor and never read; the methods below take their
  place.\<close>

record VersionsTableModel =
  versions :: "version list"
  current_version :: "string option"
  notified :: "model_signal list"

definition VersionsTableModel_init :: VersionsTableModel where
  "VersionsTableModel_init = \<lparr>versions = [], current_version = None, notified = []\<rparr>"

text \<open>\<open>int_version\<close> belongs to the Mergin client library and is a parameter of every
  function that calls it: it maps a version name to its number.\<close>

definition latest_version :: "(string \<Rightarrow> int) \<Rightarrow> VersionsTableModel \<Rightarrow> int option" where
  "latest_version int_version m =
     (if length (versions m) = 0 then None
      else Some (int_version (name (hd (versions m)))))"

definition oldest_version :: "(string \<Rightarrow> int) \<Rightarrow> VersionsTableModel \<Rightarrow> int option" where
  "oldest_version int_version m =
     (if length (versions m) = 0 then None
      else Some (int_version (name (last (versions m)))))"

definition rowCount :: "VersionsTableModel \<Rightarrow> nat" where
  "rowCount m = length (versions m)"

definition insertRows :: "int \<Rightarrow> int \<Rightarrow> VersionsTableModel \<Rightarrow> VersionsTableModel" where
  "insertRows row count m = m\<lparr>notified := notified m @ [RowsInserted row (row + count - 1)]\<rparr>"

definition add_versions :: "version list \<Rightarrow> VersionsTableModel \<Rightarrow> VersionsTableModel" where
  "add_versions vs m =
     (let m1 = insertRows (int (length (versions m)) - 1) (int (length vs)) m;
          m2 = m1\<lparr>versions := versions m1 @ vs\<rparr>
      in m2\<lparr>notified := notified m2 @ [LayoutChanged]\<rparr>)"

text \<open>\<open>deque.extendleft\<close> pushes the items one by one on the left, so they arrive
  reversed.\<close>

definition prepend_versions :: "version list \<Rightarrow> VersionsTableModel \<Rightarrow> VersionsTableModel" where
  "prepend_versions vs m =
     (let m1 = insertRows 0 (int (length vs)) m;
          m2 = m1\<lparr>versions := rev vs @ versions m1\<rparr>
      in m2\<lparr>notified := notified m2 @ [LayoutChanged]\<rparr>)"

definition canFetchMore :: "(string \<Rightarrow> int) \<Rightarrow> VersionsTableModel \<Rightarrow> bool" where
  "canFetchMore int_version m =
     (oldest_version int_version m = None \<or>
      (case oldest_version int_version m of None \<Rightarrow> False | Some n \<Rightarrow> n \<ge> 1))"

subsection \<open>The fetcher thread\<close>

text \<open>The two calls of the Mergin client that the fetcher makes. The answers of the
  server are parameters; a failed call raises.\<close>

record MerginClient =
  project_info :: "string \<Rightarrow> error + (string \<rightharpoonup> string)"
  project_versions :: "string \<Rightarrow> int \<Rightarrow> int \<Rightarrow> error + version list"

text \<open>What one execution of \<open>VersionsFetcher.run\<close> does to the outside, in order: the
  calls to the server and the emissions of the signal \<open>finished\<close>. (The two calls of
  \<open>QgsMessageLog.logMessage\<close> only write to the log panel and are left out.)\<close>

datatype fetch_effect =
    ProjectInfoCall string
  | ProjectVersionsCall string int int
  | FinishedEmit "version list"

text \<open>\<open>run\<close> returns its effects and the exception that ended it, if any.\<close>

definition run ::
  "(string \<Rightarrow> int) \<Rightarrow> MerginClient \<Rightarrow> string \<Rightarrow> VersionsTableModel
     \<Rightarrow> fetch_effect list \<times> error option" where
  "run int_version mc project_name m =
     (let (eff, to_r) =
        (if length (versions m) = 0 then
           (case project_info mc project_name of
              Inl e \<Rightarrow> ([ProjectInfoCall project_name], Inl e)
            | Inr info \<Rightarrow>
                (case info ''version'' of
                   None \<Rightarrow> ([ProjectInfoCall project_name], Inl (KeyError ''version''))
                 | Some v \<Rightarrow> ([ProjectInfoCall project_name], Inr (int_version v))))
         else
           (case oldest_version int_version m of
              None \<Rightarrow> ([], Inl TypeError)
            | Some n \<Rightarrow> ([], Inr n)))
      in case to_r of
           Inl e \<Rightarrow> (eff, Some e)
         | Inr to \<Rightarrow>
             (let since = to - 100;
                  since = (if since < 0 then 1 else since)
              in case project_versions mc project_name since to of
                   Inl e \<Rightarrow> (eff @ [ProjectVersionsCall project_name since to], Some e)
                 | Inr vs \<Rightarrow>
                     (eff @ [ProjectVersionsCall project_name since to, FinishedEmit (rev vs)],
                      None)))"

subsection \<open>The dock widget\<close>

text \<open>The part of \<open>MerginProject\<close> that the dock reads.\<close>

record MerginProject =
  dir :: string
  project_full_name :: string

text \<open>A \<open>VersionsFetcher\<close> object as the dock sees it: the project it was created for
  and what \<open>isRunning()\<close> answers. The dock holds a reference to its latest fetcher, and
  the thread itself changes what \<open>isRunning()\<close> answers, so the fetcher objects live in
  a store and the dock holds an address: the store lists every fetcher ever created, the
  address is the position.\<close>

record VersionsFetcher =
  fetcher_project_name :: string
  isRunning :: bool

type_synonym fetcher_store = "VersionsFetcher list"

record ProjectHistoryDockWidget =
  mp :: "MerginProject option"
  fetcher :: "nat option"
  model :: VersionsTableModel

text \<open>\<open>self.mp\<close> is \<open>None\<close> when the constructor returned early; calling a method on
  it raises. Creating the fetcher allocates it at the end of the store, and \<open>start()\<close>
  makes \<open>isRunning()\<close> true.\<close>

definition fetch_from_server ::
  "fetcher_store \<Rightarrow> ProjectHistoryDockWidget
     \<Rightarrow> error + (fetcher_store \<times> ProjectHistoryDockWidget)" where
  "fetch_from_server st d =
     (if (case fetcher d of None \<Rightarrow> False | Some a \<Rightarrow> a < length st \<and> isRunning (st ! a))
      then Inr (st, d)
      else
        (case mp d of
           None \<Rightarrow> Inl AttributeError
         | Some p \<Rightarrow>
             Inr (st @ [\<lparr>fetcher_project_name = project_full_name p, isRunning = True\<rparr>],
                  d\<lparr>fetcher := Some (length st)\<rparr>)))"

text \<open>The slot connected to \<open>finished\<close>: the page is added to the model, in the UI
  thread.\<close>

definition on_finished ::
  "version list \<Rightarrow> ProjectHistoryDockWidget \<Rightarrow> ProjectHistoryDockWidget" where
  "on_finished vs d = d\<lparr>model := add_versions vs (model d)\<rparr>"

text \<open>The end of a fetcher thread: \<open>run\<close> has returned or raised, and \<open>isRunning()\<close>
  answers false from then on.\<close>

definition thread_exit :: "nat \<Rightarrow> fetcher_store \<Rightarrow> fetcher_store" where
  "thread_exit a st = (if a < length st then st[a := (st ! a)\<lparr>isRunning := False\<rparr>] else st)"

text \<open>The states of a dock and its fetchers: the dock as the constructor leaves it
  before its own call of \<open>fetch_from_server\<close>, then any interleaving of requests
  (the constructor's, or the scroll bar reaching its maximum), thread ends,
  deliveries of a page, and clicks on the button that is connected to the method
  \<open>append\<close> of the model, which changes the model only.\<close>

inductive reachable :: "fetcher_store \<times> ProjectHistoryDockWidget \<Rightarrow> bool" where
  init: "reachable ([], \<lparr>mp = p, fetcher = None,
                         model = VersionsTableModel_init\<lparr>current_version := cv\<rparr>\<rparr>)"
| request: "reachable (st, d) \<Longrightarrow> fetch_from_server st d = Inr (st', d') \<Longrightarrow> reachable (st', d')"
| exited: "reachable (st, d) \<Longrightarrow> reachable (thread_exit a st, d)"
| delivered: "reachable (st, d) \<Longrightarrow> reachable (st, on_finished vs d)"
| clicked: "reachable (st, d) \<Longrightarrow> reachable (st, d\<lparr>model := m\<rparr>)"

subsection \<open>Inputs for the examples\<close>

text \<open>A stand-in for the client library's \<open>int_version\<close> in the concrete examples:
  the decimal number after the leading \<open>v\<close>.\<close>

definition digit_val :: "char \<Rightarrow> int" where
  "digit_val c = int (of_char c) - 48"

definition decimal_version :: "string \<Rightarrow> int" where
  "decimal_version s =
     foldl (\<lambda>acc c. 10 * acc + digit_val c) 0 (dropWhile (\<lambda>c. c = CHR ''v'') s)"

definition mk_version :: "string \<Rightarrow> version" where
  "mk_version n = \<lparr>name = n, author = ''alice'', created = ''2023-01-01''\<rparr>"

definition ledger_at_root :: VersionsTableModel where
  "ledger_at_root = add_versions [mk_version ''v2'', mk_version ''v1''] VersionsTableModel_init"

definition ledger_at_100 :: VersionsTableModel where
  "ledger_at_100 =
     add_versions [mk_version ''v101'', mk_version ''v100''] VersionsTableModel_init"

text \<open>A server that knows the project at version 100 and lists no versions, and one
  that knows it at version 3 and lists all three, oldest first.\<close>

definition silent_client :: MerginClient where
  "silent_client = \<lparr>project_info = (\<lambda>_. Inr [''version'' \<mapsto> ''v100'']),
                     project_versions = (\<lambda>_ _ _. Inr [])\<rparr>"

definition small_page :: "version list" where
  "small_page = [mk_version ''v1'', mk_version ''v2'', mk_version ''v3'']"

definition small_client :: MerginClient where
  "small_client = \<lparr>project_info = (\<lambda>_. Inr [''version'' \<mapsto> ''v3'']),
                    project_versions = (\<lambda>_ _ _. Inr small_page)\<rparr>"

definition sample_project :: MerginProject where
  "sample_project = \<lparr>dir = ''/home/u/proj'', project_full_name = ''ws/proj''\<rparr>"

definition dock_opened :: ProjectHistoryDockWidget where
  "dock_opened = \<lparr>mp = Some sample_project, fetcher = None,
                  model = VersionsTableModel_init\<lparr>current_version := Some ''v3''\<rparr>\<rparr>"

definition fetching_store :: fetcher_store where
  "fetching_store = [\<lparr>fetcher_project_name = ''ws/proj'', isRunning = True\<rparr>]"

definition dock_fetching :: ProjectHistoryDockWidget where
  "dock_fetching = dock_opened\<lparr>fetcher := Some 0\<rparr>"

subsection \<open>Reading the effects and the invariant of the dock\<close>

text \<open>The pages that a run delivered, in order.\<close>

fun emitted :: "fetch_effect list \<Rightarrow> version list list" where
  "emitted [] = []"
| "emitted (FinishedEmit vs # es) = vs # emitted es"
| "emitted (_ # es) = emitted es"

text \<open>Every running fetcher is the one the dock refers to, and the dock's reference is
  never dangling.\<close>

definition one_fetcher :: "fetcher_store \<times> ProjectHistoryDockWidget \<Rightarrow> bool" where
  "one_fetcher s =
     (case s of (st, d) \<Rightarrow>
        (\<forall>a < length st. isRunning (st ! a) \<longrightarrow> fetcher d = Some a) \<and>
        (\<forall>a. fetcher d = Some a \<longrightarrow> a < length st))"

section \<open>Project validation (validation.py)\<close>

subsection \<open>Warnings and issues\<close>

datatype Warning =
    PROJ_NOT_LOADED
  | PROJ_NOT_FOUND
  | MULTIPLE_PROJS
  | ABSOLUTE_PATHS
  | EDITABLE_NON_GPKG
  | EXTERNAL_SRC
  | NOT_FOR_OFFLINE
  | NO_EDITABLE_LAYERS
  | ATTACHMENT_ABSOLUTE_PATH
  | ATTACHMENT_LOCAL_PATH
  | ATTACHMENT_EXPRESSION_PATH
  | ATTACHMENT_HYPERLINK
  | DATABASE_SCHEMA_CHANGE

text \<open>\<open>MultipleLayersWarning(id)\<close> with its list \<open>layers\<close>, and
  \<open>SingleLayerWarning(layer_id, warning)\<close>.\<close>

datatype issue =
    MultipleLayersWarning Warning "string list"
  | SingleLayerWarning string Warning

subsection \<open>The host: QGIS objects, the file system, the diff library\<close>

datatype QgsMapLayerType = VectorLayer | RasterLayer | PluginLayer | MeshLayer | VectorTileLayer

record QgsDataProvider =
  provider_name :: string
  capabilities :: int
  storageType :: string

text \<open>The two capability flags of \<open>QgsVectorDataProvider\<close> that the validator tests.\<close>

definition AddFeatures :: int where
  "AddFeatures = 1"

definition ChangeAttributeValues :: int where
  "ChangeAttributeValues = 4"

text \<open>The values of a widget configuration that the validator looks at.\<close>

datatype cfg_value = CInt int | CStr string | CBool bool

record QgsEditorWidgetSetup =
  widget_type :: string
  config :: "string \<rightharpoonup> cfg_value"

text \<open>A map layer: \<open>id()\<close>, \<open>type()\<close>, \<open>dataProvider()\<close> (which may be \<open>None\<close>),
  \<open>publicSource()\<close> and, for each of the \<open>fields().count()\<close> fields,
  \<open>editorWidgetSetup(i)\<close>, \<open>None\<close> standing for a setup that is false as a
  condition.\<close>

record QgsMapLayer =
  layer_id :: string
  layer_type :: QgsMapLayerType
  dataProvider :: "QgsDataProvider option"
  publicSource :: string
  editorWidgetSetup :: "QgsEditorWidgetSetup option list"

text \<open>Everything the validator reads from outside: the functions of \<open>os\<close>,
  \<open>os.path\<close> and \<open>pathlib\<close> (they depend on the platform), the project that
  \<open>QgsProject.instance()\<close> returns, \<open>QgsExpression(s).isValid()\<close>, and
  \<open>has_schema_change\<close>, which \<open>validation.py\<close> imports from \<open>utils\<close> and which
  compares a layer with the last synchronised state by means of the diff library.\<close>

record host =
  walk :: "string \<Rightarrow> (string \<times> string list \<times> string list) list"
  splitext :: "string \<Rightarrow> string \<times> string"
  join :: "string \<Rightarrow> string \<Rightarrow> string"
  isabs :: "string \<Rightarrow> bool"
  dirname :: "string \<Rightarrow> string"
  same_path :: "string \<Rightarrow> string \<Rightarrow> bool"
  absolutePath :: string
  absoluteFilePath :: string
  readEntry_Paths_Absolute :: "string \<times> bool"
  mapLayers :: "(string \<times> QgsMapLayer) list"
  expression_isValid :: "string \<Rightarrow> bool"
  has_schema_change :: "MerginProject option \<Rightarrow> QgsMapLayer \<Rightarrow> bool \<times> string"

subsection \<open>utils.py\<close>

definition QGIS_NET_PROVIDERS :: "string list" where
  "QGIS_NET_PROVIDERS = [''WFS'', ''arcgisfeatureserver'', ''arcgismapserver'', ''geonode'',
     ''ows'', ''wcs'', ''wms'', ''vectortile'']"

definition QGIS_DB_PROVIDERS :: "string list" where
  "QGIS_DB_PROVIDERS = [''postgres'', ''mssql'', ''oracle'', ''hana'', ''postgresraster'', ''DB2'']"

definition find_qgis_files :: "host \<Rightarrow> string \<Rightarrow> string list" where
  "find_qgis_files h directory =
     concat (map (\<lambda>(root, dirs, files).
                    map (join h root)
                      (filter (\<lambda>f. snd (splitext h f) \<in> set [''.qgs'', ''.qgz'']) files))
                 (walk h directory))"

definition same_dir :: "host \<Rightarrow> string \<Rightarrow> string \<Rightarrow> bool" where
  "same_dir h dir1 dir2 = (if dir1 = [] \<or> dir2 = [] then False else same_path h dir1 dir2)"

subsection \<open>String operations of Python\<close>

text \<open>\<open>s.rfind(c)\<close> is the last position of \<open>c\<close>, or -1; \<open>s[:i]\<close> counts a negative
  \<open>i\<close> from the end; \<open>s.split(c)[0]\<close> is what precedes the first \<open>c\<close>.\<close>

definition rfind :: "string \<Rightarrow> char \<Rightarrow> int" where
  "rfind s c =
     (if c \<in> set s then int (length s) - 1 - int (length (takeWhile (\<lambda>x. x \<noteq> c) (rev s)))
      else - 1)"

definition slice_to :: "string \<Rightarrow> int \<Rightarrow> string" where
  "slice_to s i = (if i < 0 then take (nat (int (length s) + i)) s else take (nat i) s)"

definition split_first :: "string \<Rightarrow> char \<Rightarrow> string" where
  "split_first s c = takeWhile (\<lambda>x. x \<noteq> c) s"

subsection \<open>The validator\<close>

text \<open>\<open>qgis_proj\<close> is \<open>None\<close> or \<open>QgsProject.instance()\<close>: the field says whether it
  is set. \<open>layers_by_prov\<close> is a \<open>defaultdict(list)\<close>.\<close>

record MerginProjectValidator =
  mp_v :: "MerginProject option"
  layers :: "(string \<times> QgsMapLayer) list option"
  editable :: "string list option"
  layers_by_prov :: "string \<Rightarrow> string list"
  issues :: "issue list"
  qgis_files :: "string list option"
  qgis_proj :: bool
  qgis_proj_path :: "string option"
  qgis_proj_dir :: "string option"

definition MerginProjectValidator_init :: "MerginProject option \<Rightarrow> MerginProjectValidator" where
  "MerginProjectValidator_init mergin_project =
     \<lparr>mp_v = mergin_project, layers = None, editable = None, layers_by_prov = (\<lambda>_. []),
      issues = [], qgis_files = None, qgis_proj = False, qgis_proj_path = None,
      qgis_proj_dir = None\<rparr>"

definition append_issues :: "issue list \<Rightarrow> MerginProjectValidator \<Rightarrow> MerginProjectValidator" where
  "append_issues new v = v\<lparr>issues := issues v @ new\<rparr>"

definition bind_err :: "error + 'a \<Rightarrow> ('a \<Rightarrow> error + 'b) \<Rightarrow> error + 'b" where
  "bind_err r f = (case r of Inl e \<Rightarrow> Inl e | Inr x \<Rightarrow> f x)"

definition check_single_proj ::
  "host \<Rightarrow> string \<Rightarrow> MerginProjectValidator \<Rightarrow> bool \<times> MerginProjectValidator" where
  "check_single_proj h project_dir v =
     (let fs = find_qgis_files h project_dir;
          v1 = v\<lparr>qgis_files := Some fs\<rparr>
      in if length fs > 1 then
           (False, append_issues [MultipleLayersWarning MULTIPLE_PROJS []] v1)
         else if length fs = 0 then
           (False, append_issues [MultipleLayersWarning PROJ_NOT_FOUND []] v1)
         else (True, v1))"

definition check_proj_loaded ::
  "host \<Rightarrow> MerginProjectValidator \<Rightarrow> error + (bool \<times> MerginProjectValidator)" where
  "check_proj_loaded h v =
     (case qgis_files v of
        None \<Rightarrow> Inl TypeError
      | Some [] \<Rightarrow> Inl IndexError
      | Some (f # _) \<Rightarrow>
          (let v1 = v\<lparr>qgis_proj_path := Some f\<rparr>;
               is_loaded = same_dir h f (absoluteFilePath h)
           in if \<not> is_loaded then
                Inr (is_loaded, append_issues [MultipleLayersWarning PROJ_NOT_LOADED []] v1)
              else Inr (is_loaded, v1\<lparr>qgis_proj := True\<rparr>)))"

definition check_proj_paths_relative ::
  "host \<Rightarrow> MerginProjectValidator \<Rightarrow> error + MerginProjectValidator" where
  "check_proj_paths_relative h v =
     (if \<not> qgis_proj v then Inl AttributeError
      else
        (case readEntry_Paths_Absolute h of
           (abs_paths, ok) \<Rightarrow>
             if \<not> ok then Inl AssertionError
             else if \<not> abs_paths = ''false'' then
               Inr (append_issues [MultipleLayersWarning ABSOLUTE_PATHS []] v)
             else Inr v))"

definition can_edit :: "QgsDataProvider \<Rightarrow> bool" where
  "can_edit dp =
     (capabilities dp AND AddFeatures \<noteq> 0 \<or> capabilities dp AND ChangeAttributeValues \<noteq> 0)"

text \<open>The loop of \<open>get_proj_layers\<close>, on \<open>layers_by_prov\<close> and \<open>editable\<close>.\<close>

fun harvest ::
  "(string \<times> QgsMapLayer) list \<Rightarrow> (string \<Rightarrow> string list) \<times> string list
     \<Rightarrow> (string \<Rightarrow> string list) \<times> string list" where
  "harvest [] acc = acc"
| "harvest ((lid, layer) # ls) (by_prov, ed) =
     (case dataProvider layer of
        None \<Rightarrow> harvest ls (by_prov, ed)
      | Some dp \<Rightarrow>
          (let by_prov1 = by_prov(provider_name dp := by_prov (provider_name dp) @ [lid]);
               ed1 = (if layer_type layer = VectorLayer \<and> can_edit dp
                      then ed @ [layer_id layer] else ed)
           in harvest ls (by_prov1, ed1)))"

definition get_proj_layers ::
  "host \<Rightarrow> MerginProjectValidator \<Rightarrow> error + MerginProjectValidator" where
  "get_proj_layers h v =
     (if \<not> qgis_proj v then Inl AttributeError
      else
        (case harvest (mapLayers h) (layers_by_prov v, []) of
           (by_prov, ed) \<Rightarrow>
             (let v1 = v\<lparr>layers := Some (mapLayers h), editable := Some ed,
                         layers_by_prov := by_prov\<rparr>
              in if length ed = 0 then
                   Inr (append_issues [MultipleLayersWarning NO_EDITABLE_LAYERS []] v1)
                 else Inr v1)))"

text \<open>The loops of the checks run over \<open>self.layers.items()\<close> and append to
  \<open>self.issues\<close>. Each loop is a function that returns the issues it appends, in order,
  or the exception that ends it; the check appends them to the validator's list.\<close>

definition layer_path :: "string \<Rightarrow> string" where
  "layer_path pub_src =
     (if take 5 pub_src = ''GPKG:'' then
        (let pub_src1 = drop 5 pub_src in slice_to pub_src1 (rfind pub_src1 (CHR '':'')))
      else split_first pub_src (CHR ''|''))"

fun saved_in_proj_dir_issues ::
  "host \<Rightarrow> string list \<Rightarrow> string \<Rightarrow> (string \<times> QgsMapLayer) list \<Rightarrow> issue list" where
  "saved_in_proj_dir_issues h file_based proj_dir [] = []"
| "saved_in_proj_dir_issues h file_based proj_dir ((lid, layer) # ls) =
     (if lid \<notin> set file_based then saved_in_proj_dir_issues h file_based proj_dir ls
      else
        (let l_dir = dirname h (layer_path (publicSource layer))
         in (if \<not> same_dir h l_dir proj_dir then [SingleLayerWarning lid EXTERNAL_SRC] else [])
            @ saved_in_proj_dir_issues h file_based proj_dir ls))"

text \<open>A \<open>qgis_proj_dir\<close> that is \<open>None\<close> is false as a condition, like the empty
  string.\<close>

definition check_saved_in_proj_dir ::
  "host \<Rightarrow> MerginProjectValidator \<Rightarrow> error + MerginProjectValidator" where
  "check_saved_in_proj_dir h v =
     (case layers v of
        None \<Rightarrow> Inl AttributeError
      | Some ls \<Rightarrow>
          Inr (append_issues
                 (saved_in_proj_dir_issues h
                    (layers_by_prov v ''gdal'' @ layers_by_prov v ''ogr'')
                    (case qgis_proj_dir v of None \<Rightarrow> [] | Some d \<Rightarrow> d) ls) v))"

fun editable_vectors_format_issues ::
  "string list \<Rightarrow> (string \<times> QgsMapLayer) list \<Rightarrow> error + issue list" where
  "editable_vectors_format_issues ed [] = Inr []"
| "editable_vectors_format_issues ed ((lid, layer) # ls) =
     (if lid \<notin> set ed then editable_vectors_format_issues ed ls
      else
        (case dataProvider layer of
           None \<Rightarrow> Inl AttributeError
         | Some dp \<Rightarrow>
             bind_err (editable_vectors_format_issues ed ls)
               (\<lambda>rest. Inr ((if \<not> storageType dp = ''GPKG''
                             then [SingleLayerWarning lid EDITABLE_NON_GPKG] else []) @ rest))))"

definition check_editable_vectors_format ::
  "MerginProjectValidator \<Rightarrow> error + MerginProjectValidator" where
  "check_editable_vectors_format v =
     (case layers v of
        None \<Rightarrow> Inl AttributeError
      | Some ls \<Rightarrow>
          (case editable v of
             None \<Rightarrow> Inl TypeError
           | Some ed \<Rightarrow>
               bind_err (editable_vectors_format_issues ed ls)
                 (\<lambda>new. Inr (append_issues new v))))"

text \<open>The layers that \<open>check_offline\<close> collects in its one warning; a layer without
  provider raises \<open>AttributeError\<close>, which the loop catches.\<close>

definition offline_layers :: "(string \<times> QgsMapLayer) list \<Rightarrow> string list" where
  "offline_layers ls =
     map fst (filter (\<lambda>(lid, layer).
                        case dataProvider layer of
                          None \<Rightarrow> False
                        | Some dp \<Rightarrow>
                            provider_name dp \<in> set (QGIS_NET_PROVIDERS @ QGIS_DB_PROVIDERS))
                ls)"

definition check_offline :: "MerginProjectValidator \<Rightarrow> error + MerginProjectValidator" where
  "check_offline v =
     (case layers v of
        None \<Rightarrow> Inl AttributeError
      | Some ls \<Rightarrow>
          (let w = offline_layers ls
           in if w \<noteq> [] then Inr (append_issues [MultipleLayersWarning NOT_FOR_OFFLINE w] v)
              else Inr v))"

text \<open>\<open>cfg["RelativeStorage"] == 0\<close>: in Python \<open>False == 0\<close> holds too.\<close>

definition is_zero :: "cfg_value \<Rightarrow> bool" where
  "is_zero x = (case x of CInt n \<Rightarrow> n = 0 | CBool b \<Rightarrow> \<not> b | CStr _ \<Rightarrow> False)"

text \<open>The body of the loop over the fields, for a field with an attachment widget.
  \<open>os.path.isabs\<close> raises \<open>TypeError\<close> on a value that is not a string.\<close>

definition widget_issues :: "host \<Rightarrow> string \<Rightarrow> (string \<rightharpoonup> cfg_value) \<Rightarrow> error + issue list" where
  "widget_issues h lid cfg =
     (case cfg ''RelativeStorage'' of
        None \<Rightarrow> Inl (KeyError ''RelativeStorage'')
      | Some rs \<Rightarrow>
          (let absolute = (if is_zero rs
                           then [SingleLayerWarning lid ATTACHMENT_ABSOLUTE_PATH] else [])
           in case cfg ''DefaultRoot'' of
                None \<Rightarrow> Inr absolute
              | Some (CStr root) \<Rightarrow>
                  Inr (absolute
                       @ (if isabs h root
                          then [SingleLayerWarning lid ATTACHMENT_LOCAL_PATH] else [])
                       @ (if expression_isValid h root
                          then [SingleLayerWarning lid ATTACHMENT_EXPRESSION_PATH] else [])
                       @ (if cfg ''UseLink'' \<noteq> None
                          then [SingleLayerWarning lid ATTACHMENT_HYPERLINK] else []))
              | Some _ \<Rightarrow> Inl TypeError))"

fun fields_issues ::
  "host \<Rightarrow> string \<Rightarrow> QgsEditorWidgetSetup option list \<Rightarrow> error + issue list" where
  "fields_issues h lid [] = Inr []"
| "fields_issues h lid (ws # wss) =
     (case ws of
        None \<Rightarrow> fields_issues h lid wss
      | Some w \<Rightarrow>
          if widget_type w = ''ExternalResource'' then
            bind_err (widget_issues h lid (config w))
              (\<lambda>new. bind_err (fields_issues h lid wss) (\<lambda>rest. Inr (new @ rest)))
          else fields_issues h lid wss)"

text \<open>Only vector layers have \<open>fields()\<close>.\<close>

fun attachment_widget_issues ::
  "host \<Rightarrow> string list \<Rightarrow> (string \<times> QgsMapLayer) list \<Rightarrow> error + issue list" where
  "attachment_widget_issues h ed [] = Inr []"
| "attachment_widget_issues h ed ((lid, layer) # ls) =
     (if lid \<notin> set ed then attachment_widget_issues h ed ls
      else if layer_type layer \<noteq> VectorLayer then Inl AttributeError
      else
        bind_err (fields_issues h lid (editorWidgetSetup layer))
          (\<lambda>new. bind_err (attachment_widget_issues h ed ls) (\<lambda>rest. Inr (new @ rest))))"

definition check_attachment_widget ::
  "host \<Rightarrow> MerginProjectValidator \<Rightarrow> error + MerginProjectValidator" where
  "check_attachment_widget h v =
     (case layers v of
        None \<Rightarrow> Inl AttributeError
      | Some ls \<Rightarrow>
          (case editable v of
             None \<Rightarrow> Inl TypeError
           | Some ed \<Rightarrow>
               bind_err (attachment_widget_issues h ed ls)
                 (\<lambda>new. Inr (append_issues new v))))"

fun db_schema_issues ::
  "host \<Rightarrow> MerginProject option \<Rightarrow> string list \<Rightarrow> (string \<times> QgsMapLayer) list
     \<Rightarrow> error + issue list" where
  "db_schema_issues h p ed [] = Inr []"
| "db_schema_issues h p ed ((lid, layer) # ls) =
     (if lid \<notin> set ed then db_schema_issues h p ed ls
      else
        (case dataProvider layer of
           None \<Rightarrow> Inl AttributeError
         | Some dp \<Rightarrow>
             bind_err (db_schema_issues h p ed ls)
               (\<lambda>rest. Inr ((if storageType dp = ''GPKG'' then
                               (case has_schema_change h p layer of
                                  (has_change, msg) \<Rightarrow>
                                    if \<not> has_change
                                    then [SingleLayerWarning lid DATABASE_SCHEMA_CHANGE] else [])
                             else []) @ rest))))"

definition check_db_schema ::
  "host \<Rightarrow> MerginProjectValidator \<Rightarrow> error + MerginProjectValidator" where
  "check_db_schema h v =
     (case layers v of
        None \<Rightarrow> Inl AttributeError
      | Some ls \<Rightarrow>
          (case editable v of
             None \<Rightarrow> Inl TypeError
           | Some ed \<Rightarrow>
               bind_err (db_schema_issues h (mp_v v) ed ls)
                 (\<lambda>new. Inr (append_issues new v))))"

text \<open>\<open>run_checks\<close> returns \<open>self.issues\<close>; the validator it leaves behind is returned
  with it.\<close>

definition run_checks ::
  "host \<Rightarrow> MerginProjectValidator \<Rightarrow> error + (issue list \<times> MerginProjectValidator)" where
  "run_checks h v =
     (let proj_dir = (case mp_v v of None \<Rightarrow> absolutePath h | Some p \<Rightarrow> dir p);
          v0 = v\<lparr>qgis_proj_dir := Some proj_dir\<rparr>
      in case check_single_proj h proj_dir v0 of
           (single, v1) \<Rightarrow>
             if \<not> single then Inr (issues v1, v1)
             else
               bind_err (check_proj_loaded h v1)
                 (\<lambda>(loaded, v2).
                    if \<not> loaded then Inr (issues v2, v2)
                    else
                      bind_err (get_proj_layers h v2) (\<lambda>v3.
                      bind_err (check_proj_paths_relative h v3) (\<lambda>v4.
                      bind_err (check_saved_in_proj_dir h v4) (\<lambda>v5.
                      bind_err (check_editable_vectors_format v5) (\<lambda>v6.
                      bind_err (check_offline v6) (\<lambda>v7.
                      bind_err (check_attachment_widget h v7) (\<lambda>v8.
                      bind_err (check_db_schema h v8) (\<lambda>v9.
                      Inr (issues v9, v9))))))))))"

subsection \<open>Inputs for the examples of the validator\<close>

text \<open>Stand-ins for the path functions on a POSIX system, enough for the paths of the
  examples: the extension starts at the last dot, the directory ends before the last
  slash, two paths are the same when they are equal as strings.\<close>

definition ext_of :: "string \<Rightarrow> string" where
  "ext_of f = (if CHR ''.'' \<in> set f then CHR ''.'' # rev (takeWhile (\<lambda>c. c \<noteq> CHR ''.'') (rev f))
               else [])"

definition dir_of :: "string \<Rightarrow> string" where
  "dir_of p = rev (drop 1 (dropWhile (\<lambda>c. c \<noteq> CHR ''/'') (rev p)))"

definition gpkg_provider :: QgsDataProvider where
  "gpkg_provider = \<lparr>provider_name = ''ogr'', capabilities = 5, storageType = ''GPKG''\<rparr>"

definition plain_widget :: QgsEditorWidgetSetup where
  "plain_widget = \<lparr>widget_type = ''TextEdit'', config = Map.empty\<rparr>"

definition photo_widget :: QgsEditorWidgetSetup where
  "photo_widget = \<lparr>widget_type = ''ExternalResource'',
                   config = [''RelativeStorage'' \<mapsto> CInt 0, ''DefaultRoot'' \<mapsto> CStr ''/photos'',
                             ''UseLink'' \<mapsto> CBool False]\<rparr>"

definition survey_layer :: QgsMapLayer where
  "survey_layer = \<lparr>layer_id = ''survey_1'', layer_type = VectorLayer,
                   dataProvider = Some gpkg_provider,
                   publicSource = ''/home/u/proj/data.gpkg|layername=survey'',
                   editorWidgetSetup = [Some plain_widget]\<rparr>"

definition photo_layer :: QgsMapLayer where
  "photo_layer = survey_layer\<lparr>layer_id := ''photos_2'',
                   editorWidgetSetup := [Some plain_widget, Some photo_widget]\<rparr>"

text \<open>A project directory with one project file, loaded in QGIS, with one editable
  GeoPackage layer; \<open>has_schema_change\<close> answers \<open>True\<close>.\<close>

definition survey_host :: host where
  "survey_host =
     \<lparr>walk = (\<lambda>d. if d = ''/home/u/proj''
                   then [(''/home/u/proj'', [], [''proj.qgz'', ''data.gpkg''])] else []),
      splitext = (\<lambda>f. (take (length f - length (ext_of f)) f, ext_of f)),
      join = (\<lambda>a b. a @ ''/'' @ b),
      isabs = (\<lambda>p. take 1 p = ''/''),
      dirname = dir_of,
      same_path = (\<lambda>a b. a = b),
      absolutePath = ''/home/u/proj'',
      absoluteFilePath = ''/home/u/proj/proj.qgz'',
      readEntry_Paths_Absolute = (''false'', True),
      mapLayers = [(''survey_1'', survey_layer)],
      expression_isValid = (\<lambda>e. e = ''/photos''),
      has_schema_change = (\<lambda>_ _. (True, ''Fields in table survey added/removed''))\<rparr>"

text \<open>The same project when \<open>has_schema_change\<close> answers \<open>False\<close>, with a second layer
  that has an attachment widget, in an empty directory, and in a directory with two
  project files.\<close>

definition survey_host_same :: host where
  "survey_host_same = survey_host\<lparr>has_schema_change := (\<lambda>_ _. (False, ''No schema changes''))\<rparr>"

definition photo_host :: host where
  "photo_host = survey_host\<lparr>mapLayers := [(''survey_1'', survey_layer), (''photos_2'', photo_layer)]\<rparr>"

definition empty_dir_host :: host where
  "empty_dir_host = survey_host\<lparr>walk := (\<lambda>d. [(d, [], [''notes.txt''])])\<rparr>"

definition two_projects_host :: host where
  "two_projects_host = survey_host\<lparr>walk := (\<lambda>d. [(d, [], [''a.qgs'', ''b.qgz''])])\<rparr>"

text \<open>An attachment widget whose configuration has \<open>DefaultRoot\<close> and \<open>UseLink\<close> but
  no \<open>RelativeStorage\<close>, an editable layer with that widget, and the project with that
  layer alone and beside the layer with the photo widget.\<close>

definition link_widget :: QgsEditorWidgetSetup where
  "link_widget = \<lparr>widget_type = ''ExternalResource'',
                  config = [''DefaultRoot'' \<mapsto> CStr ''docs'', ''UseLink'' \<mapsto> CBool True]\<rparr>"

definition link_layer :: QgsMapLayer where
  "link_layer = survey_layer\<lparr>layer_id := ''links_3'', editorWidgetSetup := [Some link_widget]\<rparr>"

definition link_host :: host where
  "link_host = survey_host\<lparr>mapLayers := [(''links_3'', link_layer)]\<rparr>"

definition photo_and_link_host :: host where
  "photo_and_link_host =
     survey_host\<lparr>mapLayers := [(''photos_2'', photo_layer), (''links_3'', link_layer)]\<rparr>"

subsection \<open>Reading a run of the validator\<close>

text \<open>The directory that \<open>run_checks\<close> validates.\<close>

definition proj_dir_of :: "host \<Rightarrow> MerginProject option \<Rightarrow> string" where
  "proj_dir_of h p = (case p of None \<Rightarrow> absolutePath h | Some q \<Rightarrow> dir q)"

text \<open>The issues that the checks after \<open>check_proj_loaded\<close> append, one after the
  other, for a validator that holds the Mergin project \<open>p\<close> and enters
  \<open>get_proj_layers\<close> with \<open>by_prov0\<close> in \<open>layers_by_prov\<close>; and the validator that
  such a run leaves behind.\<close>

definition pipeline_issues ::
  "host \<Rightarrow> MerginProject option \<Rightarrow> (string \<Rightarrow> string list) \<Rightarrow> error + issue list" where
  "pipeline_issues h p by_prov0 =
     (case harvest (mapLayers h) (by_prov0, []) of
        (by_prov, ed) \<Rightarrow>
          if \<not> snd (readEntry_Paths_Absolute h) then Inl AssertionError
          else
            bind_err (editable_vectors_format_issues ed (mapLayers h)) (\<lambda>fmt.
            bind_err (attachment_widget_issues h ed (mapLayers h)) (\<lambda>att.
            bind_err (db_schema_issues h p ed (mapLayers h)) (\<lambda>db.
            Inr ((if ed = [] then [MultipleLayersWarning NO_EDITABLE_LAYERS []] else [])
                 @ (if fst (readEntry_Paths_Absolute h) \<noteq> ''false''
                    then [MultipleLayersWarning ABSOLUTE_PATHS []] else [])
                 @ saved_in_proj_dir_issues h (by_prov ''gdal'' @ by_prov ''ogr'')
                     (proj_dir_of h p) (mapLayers h)
                 @ fmt
                 @ (if offline_layers (mapLayers h) \<noteq> []
                    then [MultipleLayersWarning NOT_FOR_OFFLINE (offline_layers (mapLayers h))]
                    else [])
                 @ att @ db)))))"

definition loaded_validator ::
  "host \<Rightarrow> string \<Rightarrow> issue list \<Rightarrow> MerginProjectValidator \<Rightarrow> MerginProjectValidator" where
  "loaded_validator h f iss v =
     v\<lparr>layers := Some (mapLayers h),
       editable := Some (snd (harvest (mapLayers h) (layers_by_prov v, []))),
       layers_by_prov := fst (harvest (mapLayers h) (layers_by_prov v, [])),
       issues := iss,
       qgis_files := Some [f], qgis_proj := True, qgis_proj_path := Some f,
       qgis_proj_dir := Some (proj_dir_of h (mp_v v))\<rparr>"

text \<open>The claim about hyperlinks, in its own words: a field is flagged when it has an
  attachment widget whose configuration contains the keys \<open>DefaultRoot\<close> and
  \<open>UseLink\<close>; \<open>hyperlink_fields\<close> counts the flagged fields of the editable layers
  that the project lists under the identifier \<open>lid\<close>. The editable layers are those
  that \<open>get_proj_layers\<close> collects.\<close>

definition hyperlink_field :: "QgsEditorWidgetSetup option \<Rightarrow> bool" where
  "hyperlink_field ws =
     (case ws of
        None \<Rightarrow> False
      | Some w \<Rightarrow> widget_type w = ''ExternalResource'' \<and>
                  config w ''DefaultRoot'' \<noteq> None \<and> config w ''UseLink'' \<noteq> None)"

definition hyperlink_fields :: "string list \<Rightarrow> (string \<times> QgsMapLayer) list \<Rightarrow> string \<Rightarrow> nat" where
  "hyperlink_fields ed ls lid =
     sum_list (map (\<lambda>(k, layer). if k = lid \<and> k \<in> set ed
                                  then length (filter hyperlink_field (editorWidgetSetup layer))
                                  else 0) ls)"

definition editable_ids :: "host \<Rightarrow> string list" where
  "editable_ids h = snd (harvest (mapLayers h) (\<lambda>_. [], []))"

text \<open>The projects on which the checks after \<open>check_proj_loaded\<close> raise no
  exception: the entry of the path mode can be read, every layer listed under the
  identifier of an editable layer is a vector layer with a provider, and the
  configuration of each of its attachment widgets contains \<open>RelativeStorage\<close> and,
  where it contains \<open>DefaultRoot\<close>, holds a string there.\<close>

definition widget_config_ok :: "(string \<rightharpoonup> cfg_value) \<Rightarrow> bool" where
  "widget_config_ok cfg =
     (cfg ''RelativeStorage'' \<noteq> None \<and>
      (case cfg ''DefaultRoot'' of None \<Rightarrow> True | Some (CStr _) \<Rightarrow> True | Some _ \<Rightarrow> False))"

definition field_ok :: "QgsEditorWidgetSetup option \<Rightarrow> bool" where
  "field_ok ws =
     (case ws of
        None \<Rightarrow> True
      | Some w \<Rightarrow> if widget_type w = ''ExternalResource'' then widget_config_ok (config w)
                  else True)"

definition layer_ok :: "string list \<Rightarrow> string \<times> QgsMapLayer \<Rightarrow> bool" where
  "layer_ok ed x =
     (case x of (lid, layer) \<Rightarrow>
        if lid \<in> set ed
        then dataProvider layer \<noteq> None \<and> layer_type layer = VectorLayer \<and>
             list_all field_ok (editorWidgetSetup layer)
        else True)"

definition project_ok :: "host \<Rightarrow> bool" where
  "project_ok h =
     (snd (readEntry_Paths_Absolute h) \<and> list_all (layer_ok (editable_ids h)) (mapLayers h))"

text \<open>What the run on the project with the attachment widget returns, and the
  validator after a run in the empty directory.\<close>

definition photo_issues :: "issue list" where
  "photo_issues = [SingleLayerWarning ''photos_2'' ATTACHMENT_ABSOLUTE_PATH,
      SingleLayerWarning ''photos_2'' ATTACHMENT_LOCAL_PATH,
      SingleLayerWarning ''photos_2'' ATTACHMENT_EXPRESSION_PATH,
      SingleLayerWarning ''photos_2'' ATTACHMENT_HYPERLINK]"

definition validator_after_empty_dir :: MerginProjectValidator where
  "validator_after_empty_dir =
     (MerginProjectValidator_init None)
       \<lparr>issues := [MultipleLayersWarning PROJ_NOT_FOUND []],
        qgis_files := Some [], qgis_proj_dir := Some ''/home/u/proj''\<rparr>"


section \<open>Properties of the version history\<close>

lemma canFetchMore_iff:
  "canFetchMore iv m = (case oldest_version iv m of None \<Rightarrow> True | Some n \<Rightarrow> 1 \<le> n)"
  by (simp add: canFetchMore_def split: option.splits)

text \<open>Claim C2. \<open>canFetchMore\<close> should be false exactly when the oldest known version
  is number 1. The code compares with \<open>>= 1\<close>, so on a ledger whose oldest version is
  number 1 it still answers true.\<close>

theorem canFetchMore_true_at_root:
  "oldest_version decimal_version ledger_at_root = Some 1 \<and>
   canFetchMore decimal_version ledger_at_root = True"
  by (simp add: canFetchMore_def oldest_version_def ledger_at_root_def add_versions_def insertRows_def
      VersionsTableModel_init_def mk_version_def decimal_version_def digit_val_def)

lemma run_nonempty:
  "versions m \<noteq> [] \<Longrightarrow> oldest_version iv m = Some to \<Longrightarrow>
   run iv mc pn m =
     (let since = (if to - 100 < 0 then 1 else to - 100) in
      case project_versions mc pn since to of
        Inl e \<Rightarrow> ([ProjectVersionsCall pn since to], Some e)
      | Inr vs \<Rightarrow> ([ProjectVersionsCall pn since to, FinishedEmit (rev vs)], None))"
  by (simp add: run_def Let_def split: sum.splits)

text \<open>Claim C4. When \<open>run\<close> has called the server for the window \<open>since\<close>, \<open>to\<close> and the
  server answers with a page, the run ends without an exception and the signal
  \<open>finished\<close> is emitted exactly once, carrying the whole page reversed; a page that
  ascends in version number is delivered descending.\<close>

theorem run_delivers_page_reversed:
  assumes "run iv mc pn m = (eff, r)"
      and "ProjectVersionsCall pn' since to \<in> set eff"
      and "project_versions mc pn since to = Inr page"
  shows "emitted eff = [rev page] \<and> r = None \<and>
         (sorted_wrt (<) (map (\<lambda>v. iv (name v)) page) \<longrightarrow>
          sorted_wrt (>) (map (\<lambda>v. iv (name v)) (rev page)))"
proof -
  have ord: "sorted_wrt (<) (map (\<lambda>v. iv (name v)) page) \<longrightarrow>
          sorted_wrt (>) (map (\<lambda>v. iv (name v)) (rev page))"
    by (simp add: sorted_wrt_map sorted_wrt_rev)
  from assms have "emitted eff = [rev page] \<and> r = None"
    by (auto simp: run_def Let_def split: sum.splits option.splits if_splits prod.splits)
  with ord show ?thesis by blast
qed

theorem run_delivers_page_reversed_witness:
  "run decimal_version small_client ''ws/proj'' VersionsTableModel_init =
     ([ProjectInfoCall ''ws/proj'', ProjectVersionsCall ''ws/proj'' 1 3,
       FinishedEmit (rev small_page)], None) \<and>
   project_versions small_client ''ws/proj'' 1 3 = Inr small_page \<and>
   sorted_wrt (<) (map (\<lambda>v. decimal_version (name v)) small_page) \<and>
   emitted [ProjectInfoCall ''ws/proj'', ProjectVersionsCall ''ws/proj'' 1 3,
            FinishedEmit (rev small_page)] = [rev small_page] \<and>
   sorted_wrt (>) (map (\<lambda>v. decimal_version (name v)) (rev small_page))"
proof -
  let ?eff = "[ProjectInfoCall ''ws/proj'', ProjectVersionsCall ''ws/proj'' 1 3,
               FinishedEmit (rev small_page)]"
  have r: "run decimal_version small_client ''ws/proj'' VersionsTableModel_init = (?eff, None)"
    by (simp add: run_def small_client_def VersionsTableModel_init_def decimal_version_def
        digit_val_def)
  have c: "ProjectVersionsCall ''ws/proj'' 1 3 \<in> set ?eff" by simp
  have p: "project_versions small_client ''ws/proj'' 1 3 = Inr small_page"
    by (simp add: small_client_def)
  have s: "sorted_wrt (<) (map (\<lambda>v. decimal_version (name v)) small_page)"
    by (simp add: small_page_def mk_version_def decimal_version_def digit_val_def)
  from run_delivers_page_reversed [OF r c p] r p s show ?thesis by simp
qed

text \<open>Claim C3. The lower bound of the window should be \<open>max(1, to - 100)\<close>. The code
  replaces \<open>to - 100\<close> by 1 only when it is negative, so with \<open>to = 100\<close> it asks the
  server for the window from 0 to 100, both when 100 is the oldest version of the
  ledger and when it is the version of the remote project at the first fetch.\<close>

theorem run_since_zero_at_100:
  "oldest_version decimal_version ledger_at_100 = Some 100 \<and>
   fst (run decimal_version silent_client ''ws/proj'' ledger_at_100)
     = [ProjectVersionsCall ''ws/proj'' 0 100, FinishedEmit []] \<and>
   fst (run decimal_version silent_client ''ws/proj'' VersionsTableModel_init)
     = [ProjectInfoCall ''ws/proj'', ProjectVersionsCall ''ws/proj'' 0 100, FinishedEmit []]"
  by (simp add: run_def oldest_version_def ledger_at_100_def add_versions_def insertRows_def
      VersionsTableModel_init_def mk_version_def decimal_version_def digit_val_def silent_client_def)

lemma foldl_add_versions:
  "versions (foldl (\<lambda>m vs. add_versions vs m) m ps) = versions m @ concat ps"
  by (induction ps arbitrary: m) (simp_all add: add_versions_def insertRows_def)

lemma last_strict_desc_Min:
  fixes xs :: "int list"
  shows "sorted_wrt (>) xs \<Longrightarrow> xs \<noteq> [] \<Longrightarrow> last xs = Min (set xs)"
proof (induction xs)
  case Nil
  then show ?case by simp
next
  case (Cons x xs)
  show ?case
  proof (cases "xs = []")
    case True
    then show ?thesis by simp
  next
    case False
    with Cons have l: "last xs = Min (set xs)" by simp
    from False have "last xs \<in> set xs" by simp
    with Cons.prems have "last xs < x" by auto
    with l have lt: "Min (set xs) < x" by simp
    have "Min (set (x # xs)) = min x (Min (set xs))"
      using False by simp
    also have "\<dots> = Min (set xs)"
      using lt by (rule min_absorb2 [OF less_imp_le])
    finally show ?thesis using False l by simp
  qed
qed

text \<open>Claim C7. Starting from the empty ledger, pages are added one after the other. If
  the version numbers of all the pages together are strictly decreasing, then after each
  call (after the first \<open>k\<close> pages, for every \<open>k\<close>) the ledger holds the pages added so
  far in order, \<open>oldest_version\<close> is the least version number added so far (and \<open>None\<close>
  while nothing has been added), and the rows are strictly descending.\<close>

theorem add_versions_oldest_and_order:
  assumes "sorted_wrt (>) (map (\<lambda>v. iv (name v)) (concat pages))"
      and "k \<le> length pages"
  shows "let m = foldl (\<lambda>m vs. add_versions vs m) VersionsTableModel_init (take k pages);
             seen = map (\<lambda>v. iv (name v)) (concat (take k pages))
         in versions m = concat (take k pages) \<and>
            oldest_version iv m = (if seen = [] then None else Some (Min (set seen))) \<and>
            sorted_wrt (>) (map (\<lambda>v. iv (name v)) (versions m))"
proof -
  let ?f = "\<lambda>v. iv (name v)"
  let ?m = "foldl (\<lambda>m vs. add_versions vs m) VersionsTableModel_init (take k pages)"
  let ?pre = "concat (take k pages)"
  have vs: "versions ?m = ?pre"
    by (simp add: foldl_add_versions VersionsTableModel_init_def)
  have "concat pages = ?pre @ concat (drop k pages)"
    by (metis append_take_drop_id concat_append)
  with assms(1) have srt: "sorted_wrt (>) (map ?f ?pre)"
    by (simp add: sorted_wrt_append)
  have old: "oldest_version iv ?m = (if map ?f ?pre = [] then None else Some (Min (set (map ?f ?pre))))"
  proof (cases "?pre = []")
    case True
    with vs show ?thesis by (simp add: oldest_version_def)
  next
    case False
    then have "last (map ?f ?pre) = Min (set (map ?f ?pre))"
      using srt last_strict_desc_Min by blast
    with False vs show ?thesis by (simp add: oldest_version_def last_map)
  qed
  from vs srt old show ?thesis by (simp add: Let_def)
qed

theorem add_versions_oldest_and_order_witness:
  "sorted_wrt (>) (map (\<lambda>v. decimal_version (name v))
      (concat [[mk_version ''v5'', mk_version ''v4''], [mk_version ''v3'']])) \<and>
   (2::nat) \<le> length [[mk_version ''v5'', mk_version ''v4''], [mk_version ''v3'']] \<and>
   versions (foldl (\<lambda>m vs. add_versions vs m) VersionsTableModel_init
      [[mk_version ''v5'', mk_version ''v4''], [mk_version ''v3'']])
     = [mk_version ''v5'', mk_version ''v4'', mk_version ''v3''] \<and>
   oldest_version decimal_version (foldl (\<lambda>m vs. add_versions vs m) VersionsTableModel_init
      [[mk_version ''v5'', mk_version ''v4''], [mk_version ''v3'']]) = Some 3"
proof -
  let ?pages = "[[mk_version ''v5'', mk_version ''v4''], [mk_version ''v3'']]"
  have s: "sorted_wrt (>) (map (\<lambda>v. decimal_version (name v)) (concat ?pages))"
    by (simp add: mk_version_def decimal_version_def digit_val_def)
  have k: "(2::nat) \<le> length ?pages" by simp
  have m: "Min (set (map (\<lambda>v. decimal_version (name v)) (concat (take 2 ?pages)))) = 3"
    by (simp add: mk_version_def decimal_version_def digit_val_def)
  from add_versions_oldest_and_order [OF s k] s k m show ?thesis
    by (simp add: Let_def)
qed

lemma one_fetcherD:
  "one_fetcher (st, d) \<Longrightarrow> a < length st \<Longrightarrow> isRunning (st ! a) \<Longrightarrow> fetcher d = Some a"
  unfolding one_fetcher_def prod.case by blast

lemma one_fetcher_bound:
  "one_fetcher (st, d) \<Longrightarrow> fetcher d = Some a \<Longrightarrow> a < length st"
  unfolding one_fetcher_def prod.case by blast

lemma one_fetcherI:
  assumes "\<And>a. a < length st \<Longrightarrow> isRunning (st ! a) \<Longrightarrow> fetcher d = Some a"
      and "\<And>a. fetcher d = Some a \<Longrightarrow> a < length st"
  shows "one_fetcher (st, d)"
  unfolding one_fetcher_def prod.case using assms by blast

lemma one_fetcher_request:
  assumes "one_fetcher (st, d)" and "fetch_from_server st d = Inr (st', d')"
  shows "one_fetcher (st', d')"
proof (cases "case fetcher d of None \<Rightarrow> False | Some a \<Rightarrow> a < length st \<and> isRunning (st ! a)")
  case True
  then have "fetch_from_server st d = Inr (st, d)"
    unfolding fetch_from_server_def by (rule if_P)
  with assms show ?thesis by simp
next
  case False
  then have unf: "fetch_from_server st d =
      (case mp d of
         None \<Rightarrow> Inl AttributeError
       | Some p \<Rightarrow>
           Inr (st @ [\<lparr>fetcher_project_name = project_full_name p, isRunning = True\<rparr>],
                d\<lparr>fetcher := Some (length st)\<rparr>))"
    unfolding fetch_from_server_def by (rule if_not_P)
  from assms(2) unf obtain p where p: "mp d = Some p"
    by (cases "mp d") simp_all
  from assms(2) unf p
  have st': "st' = st @ [\<lparr>fetcher_project_name = project_full_name p, isRunning = True\<rparr>]"
    and d': "d' = d\<lparr>fetcher := Some (length st)\<rparr>"
    by simp_all
  have quiet: "\<not> isRunning (st ! a)" if "a < length st" for a
  proof
    assume r: "isRunning (st ! a)"
    from assms(1) that r have "fetcher d = Some a" by (rule one_fetcherD)
    with False that r show False by simp
  qed
  show ?thesis
  proof (rule one_fetcherI)
    fix a assume lt': "a < length st'" and r: "isRunning (st' ! a)"
    have "a = length st"
    proof (rule ccontr)
      assume "a \<noteq> length st"
      with lt' have lt: "a < length st" by (simp add: st')
      then have "st' ! a = st ! a" by (simp add: st' nth_append)
      with r quiet [OF lt] show False by simp
    qed
    then show "fetcher d' = Some a" by (simp add: d')
  next
    fix a assume "fetcher d' = Some a"
    then show "a < length st'" by (simp add: d' st')
  qed
qed

lemma one_fetcher_exit:
  assumes "one_fetcher (st, d)"
  shows "one_fetcher (thread_exit a st, d)"
proof (cases "a < length st")
  case False
  with assms show ?thesis by (simp add: thread_exit_def)
next
  case True
  then have te: "thread_exit a st = st[a := (st ! a)\<lparr>isRunning := False\<rparr>]"
    by (simp add: thread_exit_def)
  show ?thesis
    unfolding te
  proof (rule one_fetcherI)
    fix b
    assume lt: "b < length (st[a := (st ! a)\<lparr>isRunning := False\<rparr>])"
      and r: "isRunning (st[a := (st ! a)\<lparr>isRunning := False\<rparr>] ! b)"
    from lt have lt': "b < length st" by simp
    have "b \<noteq> a"
    proof
      assume "b = a"
      with r lt' show False by simp
    qed
    with r have "isRunning (st ! b)" by simp
    with assms lt' show "fetcher d = Some b" by (rule one_fetcherD)
  next
    fix b assume "fetcher d = Some b"
    with assms have "b < length st" by (rule one_fetcher_bound)
    then show "b < length (st[a := (st ! a)\<lparr>isRunning := False\<rparr>])" by simp
  qed
qed

lemma reachable_one_fetcher: "reachable s \<Longrightarrow> one_fetcher s"
proof (induction rule: reachable.induct)
  case (init p cv)
  show ?case by (rule one_fetcherI) simp_all
next
  case (request st d st' d')
  from request.IH request.hyps(2) show ?case by (rule one_fetcher_request)
next
  case (exited st d a)
  from exited.IH show ?case by (rule one_fetcher_exit)
next
  case (delivered st d vs)
  show ?case
  proof (rule one_fetcherI)
    fix a assume "a < length st" and "isRunning (st ! a)"
    with delivered.IH have "fetcher d = Some a" by (rule one_fetcherD)
    then show "fetcher (on_finished vs d) = Some a" by (simp add: on_finished_def)
  next
    fix a assume "fetcher (on_finished vs d) = Some a"
    then have "fetcher d = Some a" by (simp add: on_finished_def)
    with delivered.IH show "a < length st" by (rule one_fetcher_bound)
  qed
next
  case (clicked st d m)
  show ?case
  proof (rule one_fetcherI)
    fix a assume "a < length st" and "isRunning (st ! a)"
    with clicked.IH have "fetcher d = Some a" by (rule one_fetcherD)
    then show "fetcher (d\<lparr>model := m\<rparr>) = Some a" by simp
  next
    fix a assume "fetcher (d\<lparr>model := m\<rparr>) = Some a"
    then have "fetcher d = Some a" by simp
    with clicked.IH show "a < length st" by (rule one_fetcher_bound)
  qed
qed

text \<open>Claim C5. In every state that a dock and its fetchers can reach, a call of
  \<open>fetch_from_server\<close> made while any fetcher started earlier is still running changes
  nothing: the dock, and so its ledger, is the same, and the store of fetchers is the
  same, so no new fetcher was created and started.\<close>

theorem fetch_from_server_noop_while_running:
  assumes "reachable (st, d)" and "a < length st" and "isRunning (st ! a)"
  shows "fetch_from_server st d = Inr (st, d)"
proof -
  from assms(1) have "one_fetcher (st, d)" by (rule reachable_one_fetcher)
  from this assms(2,3) have "fetcher d = Some a" by (rule one_fetcherD)
  with assms(2,3) show ?thesis by (simp add: fetch_from_server_def)
qed

theorem fetch_from_server_noop_while_running_witness:
  "reachable (fetching_store, dock_fetching) \<and> 0 < length fetching_store \<and>
   isRunning (fetching_store ! 0) \<and>
   fetch_from_server fetching_store dock_fetching = Inr (fetching_store, dock_fetching)"
proof -
  have r0: "reachable ([], dock_opened)"
    unfolding dock_opened_def by (rule reachable.init)
  have "fetch_from_server [] dock_opened = Inr (fetching_store, dock_fetching)"
    by (simp add: fetch_from_server_def dock_opened_def dock_fetching_def fetching_store_def
        sample_project_def)
  with r0 have r1: "reachable (fetching_store, dock_fetching)"
    by (rule reachable.request)
  have l: "0 < length fetching_store" and run: "isRunning (fetching_store ! 0)"
    by (simp_all add: fetching_store_def)
  from fetch_from_server_noop_while_running [OF r1 l run] r1 l run show ?thesis by simp
qed

section \<open>Properties of the validator\<close>

subsection \<open>The shape of a run\<close>

lemmas host_defs = survey_host_def survey_host_same_def photo_host_def empty_dir_host_def
  two_projects_host_def survey_layer_def photo_layer_def photo_widget_def plain_widget_def
  gpkg_provider_def ext_of_def dir_of_def sample_project_def link_widget_def link_layer_def
  link_host_def photo_and_link_host_def

lemmas check_defs = run_checks_def check_single_proj_def check_proj_loaded_def
  check_proj_paths_relative_def get_proj_layers_def check_saved_in_proj_dir_def
  check_editable_vectors_format_def check_offline_def check_attachment_widget_def
  check_db_schema_def append_issues_def bind_err_def MerginProjectValidator_init_def
  find_qgis_files_def same_dir_def layer_path_def split_first_def rfind_def slice_to_def
  offline_layers_def can_edit_def AddFeatures_def ChangeAttributeValues_def
  QGIS_NET_PROVIDERS_def QGIS_DB_PROVIDERS_def widget_issues_def is_zero_def Let_def
  proj_dir_of_def

lemma bind_err_Inr:
  "bind_err r f = Inr y \<longleftrightarrow> (\<exists>x. r = Inr x \<and> f x = Inr y)"
  by (cases r) (simp_all add: bind_err_def)

lemma run_checks_loaded:
  assumes single: "find_qgis_files h (proj_dir_of h (mp_v v)) = [f]"
      and loaded: "same_dir h f (absoluteFilePath h)"
  shows "run_checks h v =
           bind_err (pipeline_issues h (mp_v v) (layers_by_prov v))
             (\<lambda>new. Inr (issues v @ new, loaded_validator h f (issues v @ new) v))"
proof -
  obtain by_prov ed where hv: "harvest (mapLayers h) (layers_by_prov v, []) = (by_prov, ed)"
    by (cases "harvest (mapLayers h) (layers_by_prov v, [])")
  obtain abs_paths ok where re: "readEntry_Paths_Absolute h = (abs_paths, ok)"
    by (cases "readEntry_Paths_Absolute h")
  from single have single': "find_qgis_files h (case mp_v v of None \<Rightarrow> absolutePath h | Some p \<Rightarrow> dir p) = [f]"
    by (simp add: proj_dir_of_def)
  show ?thesis
    by (cases "ed = []"; cases ok;
        cases "editable_vectors_format_issues ed (mapLayers h)";
        cases "attachment_widget_issues h ed (mapLayers h)";
        cases "db_schema_issues h (mp_v v) ed (mapLayers h)";
        simp add: run_checks_def check_single_proj_def check_proj_loaded_def single' loaded
        Let_def get_proj_layers_def hv check_proj_paths_relative_def re
        check_saved_in_proj_dir_def check_editable_vectors_format_def check_offline_def
        check_attachment_widget_def check_db_schema_def append_issues_def bind_err_def
        pipeline_issues_def loaded_validator_def proj_dir_of_def)
qed

lemma run_checks_not_single:
  assumes "length (find_qgis_files h (proj_dir_of h (mp_v v))) \<noteq> 1"
  shows "run_checks h v =
     (let w = (if length (find_qgis_files h (proj_dir_of h (mp_v v))) > 1
               then MULTIPLE_PROJS else PROJ_NOT_FOUND);
          iss = issues v @ [MultipleLayersWarning w []]
      in Inr (iss, v\<lparr>issues := iss,
                     qgis_files := Some (find_qgis_files h (proj_dir_of h (mp_v v))),
                     qgis_proj_dir := Some (proj_dir_of h (mp_v v))\<rparr>))"
proof -
  let ?fs = "find_qgis_files h (case mp_v v of None \<Rightarrow> absolutePath h | Some q \<Rightarrow> dir q)"
  from assms have "length ?fs \<noteq> 1" by (simp add: proj_dir_of_def)
  then consider (zero) "length ?fs = 0" | (many) "length ?fs > 1" by linarith
  then show ?thesis
  proof cases
    case zero
    then show ?thesis
      by (simp add: run_checks_def check_single_proj_def Let_def append_issues_def proj_dir_of_def)
  next
    case many
    then show ?thesis
      by (simp add: run_checks_def check_single_proj_def Let_def append_issues_def proj_dir_of_def)
  qed
qed

lemma run_checks_not_loaded:
  assumes single: "find_qgis_files h (proj_dir_of h (mp_v v)) = [f]"
      and loaded: "\<not> same_dir h f (absoluteFilePath h)"
  shows "run_checks h v =
     (let iss = issues v @ [MultipleLayersWarning PROJ_NOT_LOADED []]
      in Inr (iss, v\<lparr>issues := iss, qgis_files := Some [f], qgis_proj_path := Some f,
                     qgis_proj_dir := Some (proj_dir_of h (mp_v v))\<rparr>))"
proof -
  from single have single': "find_qgis_files h (case mp_v v of None \<Rightarrow> absolutePath h | Some p \<Rightarrow> dir p) = [f]"
    by (simp add: proj_dir_of_def)
  show ?thesis
    by (simp add: run_checks_def check_single_proj_def check_proj_loaded_def single' loaded
        Let_def append_issues_def bind_err_def proj_dir_of_def)
qed

text \<open>Claim C6. On a new validator, when the directory holds no project file
  \<open>run_checks\<close> returns the list with the one issue \<open>PROJ_NOT_FOUND\<close>, and when it
  holds more than one it returns the list with the one issue \<open>MULTIPLE_PROJS\<close>. In both
  cases the validator it leaves behind differs from the new one only in the issue, the
  files found and the project directory: no layer was read and no later check has run.\<close>

theorem run_checks_aborts_without_single_project:
  "(length (find_qgis_files h (proj_dir_of h p)) = 0 \<longrightarrow>
      run_checks h (MerginProjectValidator_init p) =
        Inr ([MultipleLayersWarning PROJ_NOT_FOUND []],
             (MerginProjectValidator_init p)
               \<lparr>issues := [MultipleLayersWarning PROJ_NOT_FOUND []],
                qgis_files := Some [], qgis_proj_dir := Some (proj_dir_of h p)\<rparr>)) \<and>
   (length (find_qgis_files h (proj_dir_of h p)) > 1 \<longrightarrow>
      run_checks h (MerginProjectValidator_init p) =
        Inr ([MultipleLayersWarning MULTIPLE_PROJS []],
             (MerginProjectValidator_init p)
               \<lparr>issues := [MultipleLayersWarning MULTIPLE_PROJS []],
                qgis_files := Some (find_qgis_files h (proj_dir_of h p)),
                qgis_proj_dir := Some (proj_dir_of h p)\<rparr>))"
proof -
  have m: "mp_v (MerginProjectValidator_init p) = p"
    and i: "issues (MerginProjectValidator_init p) = []"
    by (simp_all add: MerginProjectValidator_init_def)
  show ?thesis
  proof (intro conjI impI)
    assume a: "length (find_qgis_files h (proj_dir_of h p)) = 0"
    then have "length (find_qgis_files h (proj_dir_of h (mp_v (MerginProjectValidator_init p)))) \<noteq> 1"
      by (simp add: m)
    from run_checks_not_single [OF this] a show "run_checks h (MerginProjectValidator_init p) =
        Inr ([MultipleLayersWarning PROJ_NOT_FOUND []],
             (MerginProjectValidator_init p)
               \<lparr>issues := [MultipleLayersWarning PROJ_NOT_FOUND []],
                qgis_files := Some [], qgis_proj_dir := Some (proj_dir_of h p)\<rparr>)"
      by (simp add: m i Let_def)
  next
    assume a: "length (find_qgis_files h (proj_dir_of h p)) > 1"
    then have "length (find_qgis_files h (proj_dir_of h (mp_v (MerginProjectValidator_init p)))) \<noteq> 1"
      by (simp add: m)
    from run_checks_not_single [OF this] a show "run_checks h (MerginProjectValidator_init p) =
        Inr ([MultipleLayersWarning MULTIPLE_PROJS []],
             (MerginProjectValidator_init p)
               \<lparr>issues := [MultipleLayersWarning MULTIPLE_PROJS []],
                qgis_files := Some (find_qgis_files h (proj_dir_of h p)),
                qgis_proj_dir := Some (proj_dir_of h p)\<rparr>)"
      by (simp add: m i Let_def)
  qed
qed

theorem run_checks_aborts_without_single_project_witness:
  "length (find_qgis_files empty_dir_host (proj_dir_of empty_dir_host None)) = 0 \<and>
   map_sum id fst (run_checks empty_dir_host (MerginProjectValidator_init None))
     = Inr [MultipleLayersWarning PROJ_NOT_FOUND []] \<and>
   length (find_qgis_files two_projects_host (proj_dir_of two_projects_host None)) > 1 \<and>
   map_sum id fst (run_checks two_projects_host (MerginProjectValidator_init None))
     = Inr [MultipleLayersWarning MULTIPLE_PROJS []]"
proof -
  have z: "length (find_qgis_files empty_dir_host (proj_dir_of empty_dir_host None)) = 0"
    by (simp add: check_defs host_defs)
  have t: "length (find_qgis_files two_projects_host (proj_dir_of two_projects_host None)) > 1"
    by (simp add: check_defs host_defs)
  from run_checks_aborts_without_single_project [of empty_dir_host None]
    run_checks_aborts_without_single_project [of two_projects_host None] z t
  show ?thesis by simp
qed

subsection \<open>Running twice\<close>

lemma harvest_Cons_Some:
  "dataProvider layer = Some dp \<Longrightarrow>
   harvest ((lid, layer) # ls) (bp, ed) =
     harvest ls (bp(provider_name dp := bp (provider_name dp) @ [lid]),
                 ed @ (if layer_type layer = VectorLayer \<and> can_edit dp
                       then [layer_id layer] else []))"
  by simp

lemma harvest_Cons_None:
  "dataProvider layer = None \<Longrightarrow> harvest ((lid, layer) # ls) (bp, ed) = harvest ls (bp, ed)"
  by simp

lemma harvest_snd:
  "snd (harvest ls (bp, ed)) = ed @ snd (harvest ls (bp', []))"
proof (induction ls arbitrary: bp bp' ed)
  case Nil
  show ?case by simp
next
  case (Cons x ls)
  obtain lid layer where x: "x = (lid, layer)" by (cases x)
  show ?case
  proof (cases "dataProvider layer")
    case None
    have "snd (harvest ls (bp, ed)) = ed @ snd (harvest ls (bp', []))" by (rule Cons.IH)
    then show ?thesis unfolding x harvest_Cons_None [OF None] .
  next
    case (Some dp)
    let ?b = "bp(provider_name dp := bp (provider_name dp) @ [lid])"
    let ?b' = "bp'(provider_name dp := bp' (provider_name dp) @ [lid])"
    let ?X = "if layer_type layer = VectorLayer \<and> can_edit dp then [layer_id layer] else []"
    have "snd (harvest ls (?b, ed @ ?X)) = (ed @ ?X) @ snd (harvest ls (?b', []))"
      by (rule Cons.IH)
    moreover have "snd (harvest ls (?b', [] @ ?X)) = ([] @ ?X) @ snd (harvest ls (?b', []))"
      by (rule Cons.IH)
    ultimately have "snd (harvest ls (?b, ed @ ?X)) = ed @ snd (harvest ls (?b', [] @ ?X))"
      by simp
    then show ?thesis unfolding x harvest_Cons_Some [OF Some] .
  qed
qed

lemma harvest_fst_set:
  "set (fst (harvest ls (bp, ed)) k) = set (bp k) \<union> set (fst (harvest ls (\<lambda>_. [], ed')) k)"
proof (induction ls arbitrary: bp ed ed')
  case Nil
  show ?case by simp
next
  case (Cons x ls)
  obtain lid layer where x: "x = (lid, layer)" by (cases x)
  show ?case
  proof (cases "dataProvider layer")
    case None
    have "set (fst (harvest ls (bp, ed)) k) = set (bp k) \<union> set (fst (harvest ls (\<lambda>_. [], ed')) k)"
      by (rule Cons.IH)
    then show ?thesis unfolding x harvest_Cons_None [OF None] .
  next
    case (Some dp)
    let ?b = "bp(provider_name dp := bp (provider_name dp) @ [lid])"
    let ?e = "(\<lambda>_. [])(provider_name dp := (\<lambda>_. []) (provider_name dp) @ [lid])"
    let ?X = "if layer_type layer = VectorLayer \<and> can_edit dp then [layer_id layer] else []"
    have 1: "set (fst (harvest ls (?b, ed @ ?X)) k)
             = set (?b k) \<union> set (fst (harvest ls (\<lambda>_. [], [])) k)"
      by (rule Cons.IH)
    have 2: "set (fst (harvest ls (?e, ed' @ ?X)) k)
             = set (?e k) \<union> set (fst (harvest ls (\<lambda>_. [], [])) k)"
      by (rule Cons.IH)
    have "set (?b k) = set (bp k) \<union> set (?e k)" by simp
    with 1 2 have "set (fst (harvest ls (?b, ed @ ?X)) k)
             = set (bp k) \<union> set (fst (harvest ls (?e, ed' @ ?X)) k)"
      by (simp add: Un_assoc)
    then show ?thesis unfolding x harvest_Cons_Some [OF Some] .
  qed
qed

lemma saved_in_proj_dir_issues_cong:
  "set fb = set fb' \<Longrightarrow>
   saved_in_proj_dir_issues h fb pd ls = saved_in_proj_dir_issues h fb' pd ls"
  by (induction ls) auto

lemma pipeline_issues_again:
  "pipeline_issues h p (fst (harvest (mapLayers h) (\<lambda>_. [], []))) = pipeline_issues h p (\<lambda>_. [])"
proof -
  let ?ls = "mapLayers h"
  let ?B = "fst (harvest ?ls (\<lambda>_. [], []))"
  obtain b1 e1 where h1: "harvest ?ls (\<lambda>_. [], []) = (b1, e1)" by (cases "harvest ?ls (\<lambda>_. [], [])")
  obtain b2 e2 where h2: "harvest ?ls (?B, []) = (b2, e2)" by (cases "harvest ?ls (?B, [])")
  have "snd (harvest ?ls (?B, [])) = [] @ snd (harvest ?ls (\<lambda>_. [], []))"
    by (rule harvest_snd)
  with h1 h2 have e: "e2 = e1" by simp
  have "set (fst (harvest ?ls (?B, [])) k) = set (?B k) \<union> set (fst (harvest ?ls (\<lambda>_. [], [])) k)" for k
    by (rule harvest_fst_set)
  with h1 h2 have b: "set (b2 k) = set (b1 k)" for k by simp
  have "set (b2 ''gdal'' @ b2 ''ogr'') = set (b1 ''gdal'' @ b1 ''ogr'')"
    by (simp add: b)
  then have s: "saved_in_proj_dir_issues h (b2 ''gdal'' @ b2 ''ogr'') (proj_dir_of h p) ?ls
      = saved_in_proj_dir_issues h (b1 ''gdal'' @ b1 ''ogr'') (proj_dir_of h p) ?ls"
    by (rule saved_in_proj_dir_issues_cong)
  from h2 h1 have h2': "harvest ?ls (b1, []) = (b2, e2)" by simp
  show ?thesis
    by (simp add: pipeline_issues_def h1 h2' e s)
qed

text \<open>Claim C8, as it stands, fails when the second run uses the validator of the first:
  the list of issues is created by the constructor and \<open>run_checks\<close> never empties it.
  In the empty directory the first run returns one issue and the second run returns
  two.\<close>

theorem run_checks_twice_counterexample:
  "run_checks empty_dir_host (MerginProjectValidator_init None)
     = Inr ([MultipleLayersWarning PROJ_NOT_FOUND []], validator_after_empty_dir) \<and>
   map_sum id fst (run_checks empty_dir_host validator_after_empty_dir)
     = Inr [MultipleLayersWarning PROJ_NOT_FOUND [], MultipleLayersWarning PROJ_NOT_FOUND []] \<and>
   map_sum id fst (run_checks empty_dir_host validator_after_empty_dir)
     \<noteq> map_sum id fst (run_checks empty_dir_host (MerginProjectValidator_init None))"
  by (simp add: check_defs host_defs validator_after_empty_dir_def)

text \<open>Claim C8, amended. Every run on an unchanged project finds the same issues in the
  same order: when a run on a new validator returns the list \<open>r1\<close>, a second run on
  that same validator returns \<open>r1\<close> followed by \<open>r1\<close> once more. The two lists are
  equal only when no issue was found; a validator constructed anew for each run returns
  \<open>r1\<close> each time.\<close>

theorem run_checks_again_doubles:
  assumes run: "run_checks h (MerginProjectValidator_init p) = Inr (r1, v1)"
  shows "\<exists>v2. run_checks h v1 = Inr (r1 @ r1, v2) \<and> (r1 @ r1 = r1 \<longleftrightarrow> r1 = [])"
proof -
  let ?v = "MerginProjectValidator_init p"
  let ?fs = "find_qgis_files h (proj_dir_of h p)"
  have m: "mp_v ?v = p" and i: "issues ?v = []" and b: "layers_by_prov ?v = (\<lambda>_. [])"
    by (simp_all add: MerginProjectValidator_init_def)
  have "\<exists>v2. run_checks h v1 = Inr (r1 @ r1, v2)"
  proof (cases "length ?fs = 1")
    case False
    then have ns: "length (find_qgis_files h (proj_dir_of h (mp_v ?v))) \<noteq> 1" by (simp add: m)
    from run run_checks_not_single [OF ns]
    have m1: "mp_v v1 = p" and i1: "issues v1 = r1"
      and r1: "r1 = [MultipleLayersWarning (if length ?fs > 1 then MULTIPLE_PROJS
                                            else PROJ_NOT_FOUND) []]"
      by (auto simp: Let_def m i)
    from False have "length (find_qgis_files h (proj_dir_of h (mp_v v1))) \<noteq> 1" by (simp add: m1)
    from run_checks_not_single [OF this] show ?thesis
      by (simp add: Let_def m1 i1) (simp add: r1)
  next
    case True
    then obtain f where fs: "?fs = [f]" by (cases ?fs) simp_all
    then have single: "find_qgis_files h (proj_dir_of h (mp_v ?v)) = [f]" by (simp add: m)
    show ?thesis
    proof (cases "same_dir h f (absoluteFilePath h)")
      case False
      from run run_checks_not_loaded [OF single False]
      have m1: "mp_v v1 = p" and i1: "issues v1 = r1"
        and r1: "r1 = [MultipleLayersWarning PROJ_NOT_LOADED []]"
        by (auto simp: Let_def m i)
      from fs have "find_qgis_files h (proj_dir_of h (mp_v v1)) = [f]" by (simp add: m1)
      from run_checks_not_loaded [OF this False] show ?thesis
        by (simp add: Let_def m1 i1) (simp add: r1)
    next
      case True
      from run run_checks_loaded [OF single True]
      have pl: "pipeline_issues h p (\<lambda>_. []) = Inr r1"
        and v1: "v1 = loaded_validator h f r1 ?v"
        by (auto simp: bind_err_def m i b split: sum.splits)
      from v1 have m1: "mp_v v1 = p" and i1: "issues v1 = r1"
        and b1: "layers_by_prov v1 = fst (harvest (mapLayers h) (\<lambda>_. [], []))"
        by (simp_all add: loaded_validator_def m b)
      from fs have "find_qgis_files h (proj_dir_of h (mp_v v1)) = [f]" by (simp add: m1)
      from run_checks_loaded [OF this True] show ?thesis
        by (simp add: m1 i1 b1 pipeline_issues_again pl bind_err_def)
    qed
  qed
  then show ?thesis by auto
qed


theorem run_checks_again_doubles_witness:
  "map_sum id fst (run_checks survey_host_same (MerginProjectValidator_init (Some sample_project)))
     = Inr [SingleLayerWarning ''survey_1'' DATABASE_SCHEMA_CHANGE] \<and>
   map_sum id fst
     (bind_err (run_checks survey_host_same (MerginProjectValidator_init (Some sample_project)))
        (\<lambda>(r1, v1). run_checks survey_host_same v1))
     = Inr [SingleLayerWarning ''survey_1'' DATABASE_SCHEMA_CHANGE,
            SingleLayerWarning ''survey_1'' DATABASE_SCHEMA_CHANGE]"
proof -
  let ?run = "run_checks survey_host_same (MerginProjectValidator_init (Some sample_project))"
  have ev: "map_sum id fst ?run = Inr [SingleLayerWarning ''survey_1'' DATABASE_SCHEMA_CHANGE]"
    by (simp add: check_defs host_defs)
  then obtain v1 where
    run: "?run = Inr ([SingleLayerWarning ''survey_1'' DATABASE_SCHEMA_CHANGE], v1)"
    by (cases ?run) auto
  from run_checks_again_doubles [OF run] obtain v2 where
    "run_checks survey_host_same v1 =
       Inr ([SingleLayerWarning ''survey_1'' DATABASE_SCHEMA_CHANGE]
            @ [SingleLayerWarning ''survey_1'' DATABASE_SCHEMA_CHANGE], v2)"
    by blast
  with run ev show ?thesis by (simp add: bind_err_def)
qed


subsection \<open>The schema check\<close>

lemma db_schema_issues_single:
  assumes "dataProvider layer = Some dp" and "storageType dp = ''GPKG''" and "lid \<in> set ed"
  shows "db_schema_issues h p ed [(lid, layer)] =
           Inr (if fst (has_schema_change h p layer) then []
                else [SingleLayerWarning lid DATABASE_SCHEMA_CHANGE])"
  using assms by (simp add: bind_err_def split: prod.splits)

text \<open>Claim C1. The issue \<open>DATABASE_SCHEMA_CHANGE\<close> should be appended for a layer
  exactly when \<open>has_schema_change\<close> reports a change. The code appends it when the
  value it names \<open>has_change\<close> is false: for the editable GeoPackage layer of the
  example no issue is returned when \<open>has_schema_change\<close> answers \<open>True\<close>, and the
  issue is returned when it answers \<open>False\<close>.\<close>

theorem check_db_schema_flags_unchanged_layer:
  "has_schema_change survey_host (Some sample_project) survey_layer
     = (True, ''Fields in table survey added/removed'') \<and>
   map_sum id fst (run_checks survey_host (MerginProjectValidator_init (Some sample_project)))
     = Inr [] \<and>
   has_schema_change survey_host_same (Some sample_project) survey_layer
     = (False, ''No schema changes'') \<and>
   map_sum id fst (run_checks survey_host_same (MerginProjectValidator_init (Some sample_project)))
     = Inr [SingleLayerWarning ''survey_1'' DATABASE_SCHEMA_CHANGE]"
  by (simp add: check_defs host_defs)

subsection \<open>The attachment widgets\<close>

lemma widget_issues_three:
  assumes "cfg ''RelativeStorage'' = Some rs" and "is_zero rs"
      and "cfg ''DefaultRoot'' = Some (CStr root)" and "isabs h root"
      and "expression_isValid h root"
  shows "\<exists>rest. widget_issues h lid cfg =
           Inr ([SingleLayerWarning lid ATTACHMENT_ABSOLUTE_PATH,
                 SingleLayerWarning lid ATTACHMENT_LOCAL_PATH,
                 SingleLayerWarning lid ATTACHMENT_EXPRESSION_PATH] @ rest)"
  using assms by (simp add: widget_issues_def)

lemma widget_issues_hyperlink:
  assumes "widget_issues h lid cfg = Inr d"
  shows "count_list d (SingleLayerWarning k ATTACHMENT_HYPERLINK) =
           (if k = lid \<and> cfg ''DefaultRoot'' \<noteq> None \<and> cfg ''UseLink'' \<noteq> None then 1 else 0)"
  using assms
  by (auto simp: widget_issues_def Let_def split: option.splits cfg_value.splits if_splits)

lemma fields_issues_part:
  assumes "fields_issues h lid wss = Inr d" and "i < length wss" and "wss ! i = Some w"
      and "widget_type w = ''ExternalResource''"
  shows "\<exists>wd pre post. widget_issues h lid (config w) = Inr wd \<and> d = pre @ wd @ post"
  using assms
proof (induction wss arbitrary: i d)
  case Nil
  then show ?case by simp
next
  case (Cons ws wss)
  show ?case
  proof (cases i)
    case 0
    with Cons.prems have ws: "ws = Some w" by simp
    with Cons.prems(1,4) obtain new rest where "widget_issues h lid (config w) = Inr new"
      and "d = new @ rest"
      by (auto simp: bind_err_Inr)
    then have "widget_issues h lid (config w) = Inr new \<and> d = [] @ new @ rest" by simp
    then show ?thesis by blast
  next
    case (Suc j)
    with Cons.prems have j: "j < length wss" "wss ! j = Some w" by simp_all
    from Cons.prems(1) obtain new rest where rest: "fields_issues h lid wss = Inr rest"
      and d: "d = new @ rest"
      by (cases ws) (auto simp: bind_err_Inr split: if_splits)
    from Cons.IH [OF rest j Cons.prems(4)] obtain wd pre post
      where "widget_issues h lid (config w) = Inr wd" and "rest = pre @ wd @ post" by blast
    with d have "widget_issues h lid (config w) = Inr wd \<and> d = (new @ pre) @ wd @ post" by simp
    then show ?thesis by blast
  qed
qed

lemma attachment_widget_issues_part:
  assumes "attachment_widget_issues h ed ls = Inr d" and "(lid, layer) \<in> set ls"
      and "lid \<in> set ed"
  shows "\<exists>fd pre post. fields_issues h lid (editorWidgetSetup layer) = Inr fd \<and>
           d = pre @ fd @ post"
  using assms
proof (induction ls arbitrary: d)
  case Nil
  then show ?case by simp
next
  case (Cons x ls)
  obtain k l where x: "x = (k, l)" by (cases x)
  from Cons.prems(1) obtain new rest where rest: "attachment_widget_issues h ed ls = Inr rest"
    and d: "d = new @ rest"
    and new: "k \<in> set ed \<Longrightarrow> fields_issues h k (editorWidgetSetup l) = Inr new"
    unfolding x by (auto simp: bind_err_Inr split: if_splits)
  show ?case
  proof (cases "(lid, layer) = (k, l)")
    case True
    with new Cons.prems(3) have "fields_issues h lid (editorWidgetSetup layer) = Inr new" by simp
    with d have "fields_issues h lid (editorWidgetSetup layer) = Inr new \<and> d = [] @ new @ rest"
      by simp
    then show ?thesis by blast
  next
    case False
    with Cons.prems(2) x have "(lid, layer) \<in> set ls" by auto
    from Cons.IH [OF rest this Cons.prems(3)] obtain fd pre post
      where "fields_issues h lid (editorWidgetSetup layer) = Inr fd" and "rest = pre @ fd @ post"
      by blast
    with d have "fields_issues h lid (editorWidgetSetup layer) = Inr fd \<and>
        d = (new @ pre) @ fd @ post" by simp
    then show ?thesis by blast
  qed
qed

lemma harvest_editable_mem:
  assumes "(lid, layer) \<in> set ls" and "dataProvider layer = Some dp"
      and "layer_type layer = VectorLayer" and "can_edit dp"
  shows "layer_id layer \<in> set (snd (harvest ls (bp, ed)))"
  using assms(1)
proof (induction ls arbitrary: bp ed)
  case Nil
  then show ?case by simp
next
  case (Cons x ls)
  obtain k l where x: "x = (k, l)" by (cases x)
  show ?case
  proof (cases "x = (lid, layer)")
    case True
    let ?b = "bp(provider_name dp := bp (provider_name dp) @ [lid])"
    have "snd (harvest ls (?b, ed @ [layer_id layer]))
        = (ed @ [layer_id layer]) @ snd (harvest ls (?b, []))"
      by (rule harvest_snd)
    then have "layer_id layer \<in> set (snd (harvest ls (?b, ed @ [layer_id layer])))"
      by simp
    then have "layer_id layer \<in> set (snd (harvest ((lid, layer) # ls) (bp, ed)))"
      unfolding harvest_Cons_Some [OF assms(2)] using assms(3,4) by simp
    with True show ?thesis by simp
  next
    case False
    with Cons.prems have mem: "(lid, layer) \<in> set ls" by simp
    show ?thesis
    proof (cases "dataProvider l")
      case None
      from Cons.IH [OF mem] show ?thesis unfolding x harvest_Cons_None [OF None] .
    next
      case (Some dq)
      from Cons.IH [OF mem] show ?thesis unfolding x harvest_Cons_Some [OF Some] .
    qed
  qed
qed


lemma fields_issues_hyperlink:
  assumes "fields_issues h k wss = Inr d"
  shows "count_list d (SingleLayerWarning lid ATTACHMENT_HYPERLINK) =
           (if lid = k then length (filter hyperlink_field wss) else 0)"
  using assms
proof (induction wss arbitrary: d)
  case Nil
  then show ?case by simp
next
  case (Cons ws wss)
  show ?case
  proof (cases "\<exists>w. ws = Some w \<and> widget_type w = ''ExternalResource''")
    case False
    then have skip: "fields_issues h k (ws # wss) = fields_issues h k wss"
      and nf: "\<not> hyperlink_field ws"
      by (cases ws; simp add: hyperlink_field_def)+
    from Cons.prems skip have "fields_issues h k wss = Inr d" by simp
    from Cons.IH [OF this] nf show ?thesis by simp
  next
    case True
    then obtain w where ws: "ws = Some w" and t: "widget_type w = ''ExternalResource''" by blast
    from Cons.prems ws t obtain new rest where new: "widget_issues h k (config w) = Inr new"
      and rest: "fields_issues h k wss = Inr rest" and d: "d = new @ rest"
      by (auto simp: bind_err_Inr)
    have hf: "hyperlink_field ws \<longleftrightarrow>
        config w ''DefaultRoot'' \<noteq> None \<and> config w ''UseLink'' \<noteq> None"
      by (simp add: hyperlink_field_def ws t)
    from widget_issues_hyperlink [OF new, of lid] Cons.IH [OF rest] hf d show ?thesis
      by simp
  qed
qed

lemma attachment_widget_issues_hyperlink:
  assumes "attachment_widget_issues h ed ls = Inr d"
  shows "count_list d (SingleLayerWarning lid ATTACHMENT_HYPERLINK) = hyperlink_fields ed ls lid"
  using assms
proof (induction ls arbitrary: d)
  case Nil
  then show ?case by (simp add: hyperlink_fields_def)
next
  case (Cons x ls)
  obtain k l where x: "x = (k, l)" by (cases x)
  have step: "hyperlink_fields ed (x # ls) lid =
      (if k = lid \<and> k \<in> set ed then length (filter hyperlink_field (editorWidgetSetup l)) else 0)
      + hyperlink_fields ed ls lid"
    by (simp add: hyperlink_fields_def x)
  show ?case
  proof (cases "k \<in> set ed")
    case False
    with Cons.prems x have "attachment_widget_issues h ed ls = Inr d" by simp
    from Cons.IH [OF this] False step show ?thesis by simp
  next
    case True
    with Cons.prems x obtain new rest
      where new: "fields_issues h k (editorWidgetSetup l) = Inr new"
        and rest: "attachment_widget_issues h ed ls = Inr rest" and d: "d = new @ rest"
      by (auto simp: bind_err_Inr split: if_splits)
    from fields_issues_hyperlink [OF new, of lid] Cons.IH [OF rest] d True step
    show ?thesis by auto
  qed
qed

lemma saved_in_proj_dir_issues_kind:
  "x \<in> set (saved_in_proj_dir_issues h fb pd ls) \<Longrightarrow> \<exists>k. x = SingleLayerWarning k EXTERNAL_SRC"
  by (induction ls) (auto split: if_splits)

lemma editable_vectors_format_issues_kind:
  "editable_vectors_format_issues ed ls = Inr d \<Longrightarrow> x \<in> set d \<Longrightarrow>
   \<exists>k. x = SingleLayerWarning k EDITABLE_NON_GPKG"
proof (induction ls arbitrary: d)
  case Nil
  then show ?case by simp
next
  case (Cons y ls)
  obtain k l where y: "y = (k, l)" by (cases y)
  show ?case
  proof (cases "k \<in> set ed")
    case False
    with Cons.prems y have "editable_vectors_format_issues ed ls = Inr d" by simp
    from Cons.IH [OF this Cons.prems(2)] show ?thesis .
  next
    case True
    with Cons.prems(1) y obtain dp rest where "dataProvider l = Some dp"
      and rest: "editable_vectors_format_issues ed ls = Inr rest"
      and d: "d = (if \<not> storageType dp = ''GPKG''
                   then [SingleLayerWarning k EDITABLE_NON_GPKG] else []) @ rest"
      by (auto simp: bind_err_Inr split: option.splits)
    from d Cons.prems(2) have "x = SingleLayerWarning k EDITABLE_NON_GPKG \<or> x \<in> set rest"
      by (auto split: if_splits)
    with Cons.IH [OF rest] show ?thesis by blast
  qed
qed

lemma db_schema_issues_kind:
  "db_schema_issues h p ed ls = Inr d \<Longrightarrow> x \<in> set d \<Longrightarrow>
   \<exists>k. x = SingleLayerWarning k DATABASE_SCHEMA_CHANGE"
proof (induction ls arbitrary: d)
  case Nil
  then show ?case by simp
next
  case (Cons y ls)
  obtain k l where y: "y = (k, l)" by (cases y)
  show ?case
  proof (cases "k \<in> set ed")
    case False
    with Cons.prems y have "db_schema_issues h p ed ls = Inr d" by simp
    from Cons.IH [OF this Cons.prems(2)] show ?thesis .
  next
    case True
    with Cons.prems(1) y obtain new rest where
      rest: "db_schema_issues h p ed ls = Inr rest" and d: "d = new @ rest"
      and new: "new = [SingleLayerWarning k DATABASE_SCHEMA_CHANGE] \<or> new = []"
      by (auto simp: bind_err_Inr split: option.splits prod.splits if_splits)
    from d new Cons.prems(2) have "x = SingleLayerWarning k DATABASE_SCHEMA_CHANGE \<or> x \<in> set rest"
      by auto
    with Cons.IH [OF rest] show ?thesis by blast
  qed
qed

lemma pipeline_issues_parts:
  assumes "pipeline_issues h p bp0 = Inr new"
  shows "\<exists>pre fmt att db.
           editable_vectors_format_issues (snd (harvest (mapLayers h) (bp0, []))) (mapLayers h) = Inr fmt \<and>
           attachment_widget_issues h (snd (harvest (mapLayers h) (bp0, []))) (mapLayers h) = Inr att \<and>
           db_schema_issues h p (snd (harvest (mapLayers h) (bp0, []))) (mapLayers h) = Inr db \<and>
           new = pre @ att @ db \<and>
           (\<forall>x \<in> set pre. (\<exists>w k. x = MultipleLayersWarning w k) \<or>
                           (\<exists>k. x = SingleLayerWarning k EXTERNAL_SRC) \<or>
                           (\<exists>k. x = SingleLayerWarning k EDITABLE_NON_GPKG))"
proof -
  obtain bp ed where hv: "harvest (mapLayers h) (bp0, []) = (bp, ed)"
    by (cases "harvest (mapLayers h) (bp0, [])")
  from assms obtain fmt att db where
    fmt: "editable_vectors_format_issues ed (mapLayers h) = Inr fmt" and
    att: "attachment_widget_issues h ed (mapLayers h) = Inr att" and
    db: "db_schema_issues h p ed (mapLayers h) = Inr db" and
    new: "new = ((if ed = [] then [MultipleLayersWarning NO_EDITABLE_LAYERS []] else [])
                 @ (if fst (readEntry_Paths_Absolute h) \<noteq> ''false''
                    then [MultipleLayersWarning ABSOLUTE_PATHS []] else [])
                 @ saved_in_proj_dir_issues h (bp ''gdal'' @ bp ''ogr'')
                     (proj_dir_of h p) (mapLayers h)
                 @ fmt
                 @ (if offline_layers (mapLayers h) \<noteq> []
                    then [MultipleLayersWarning NOT_FOR_OFFLINE (offline_layers (mapLayers h))]
                    else [])) @ att @ db"
    by (auto simp: pipeline_issues_def hv bind_err_Inr split: if_splits)
  let ?pre = "(if ed = [] then [MultipleLayersWarning NO_EDITABLE_LAYERS []] else [])
                 @ (if fst (readEntry_Paths_Absolute h) \<noteq> ''false''
                    then [MultipleLayersWarning ABSOLUTE_PATHS []] else [])
                 @ saved_in_proj_dir_issues h (bp ''gdal'' @ bp ''ogr'')
                     (proj_dir_of h p) (mapLayers h)
                 @ fmt
                 @ (if offline_layers (mapLayers h) \<noteq> []
                    then [MultipleLayersWarning NOT_FOR_OFFLINE (offline_layers (mapLayers h))]
                    else [])"
  have "(\<exists>w k. x = MultipleLayersWarning w k) \<or>
        (\<exists>k. x = SingleLayerWarning k EXTERNAL_SRC) \<or>
        (\<exists>k. x = SingleLayerWarning k EDITABLE_NON_GPKG)" if "x \<in> set ?pre" for x
  proof -
    from that consider "\<exists>w k. x = MultipleLayersWarning w k"
      | "x \<in> set (saved_in_proj_dir_issues h (bp ''gdal'' @ bp ''ogr'')
                     (proj_dir_of h p) (mapLayers h))"
      | "x \<in> set fmt"
      by (auto split: if_splits)
    then show ?thesis
    proof cases
      case 1 then show ?thesis by blast
    next
      case 2 from saved_in_proj_dir_issues_kind [OF this] show ?thesis by blast
    next
      case 3 from editable_vectors_format_issues_kind [OF fmt this] show ?thesis by blast
    qed
  qed
  with fmt att db new show ?thesis unfolding hv snd_conv by blast
qed


lemma photo_run:
  "map_sum id fst (run_checks photo_host (MerginProjectValidator_init (Some sample_project)))
     = Inr photo_issues"
  by (simp add: check_defs host_defs photo_issues_def)

lemma photo_single:
  "find_qgis_files photo_host (proj_dir_of photo_host (Some sample_project))
     = [''/home/u/proj/proj.qgz'']"
  by (simp add: check_defs host_defs)

lemma photo_loaded: "same_dir photo_host ''/home/u/proj/proj.qgz'' (absoluteFilePath photo_host)"
  by (simp add: check_defs host_defs)

subsection \<open>The runs that raise no exception\<close>

lemma isl_bind_err:
  "(\<And>x. isl (g x) = b) \<Longrightarrow> isl (bind_err r g) = (isl r \<or> b)"
  by (cases r) (simp_all add: bind_err_def)

lemma isl_bind_err_Inr:
  "isl (bind_err r (\<lambda>x. Inr (f x))) = isl r"
  by (cases r) (simp_all add: bind_err_def)

lemma isl_widget_issues:
  "isl (widget_issues h lid cfg) = (\<not> widget_config_ok cfg)"
  by (simp add: widget_issues_def widget_config_ok_def Let_def
      split: option.splits cfg_value.splits)

lemma isl_fields_issues:
  "isl (fields_issues h lid wss) = (\<not> list_all field_ok wss)"
proof (induction wss)
  case Nil
  show ?case by simp
next
  case (Cons ws wss)
  show ?case
  proof (cases ws)
    case None
    with Cons show ?thesis by (simp add: field_ok_def)
  next
    case (Some w)
    show ?thesis
    proof (cases "widget_type w = ''ExternalResource''")
      case False
      with Some Cons show ?thesis by (simp add: field_ok_def)
    next
      case True
      have inner: "isl (bind_err (fields_issues h lid wss) (\<lambda>rest. Inr (new @ rest)))
                   = (isl (fields_issues h lid wss) \<or> False)" for new
        by (rule isl_bind_err) simp
      have "isl (bind_err (widget_issues h lid (config w))
              (\<lambda>new. bind_err (fields_issues h lid wss) (\<lambda>rest. Inr (new @ rest))))
            = (isl (widget_issues h lid (config w)) \<or> isl (fields_issues h lid wss))"
        by (rule isl_bind_err) (simp add: inner)
      with Some True Cons show ?thesis
        by (simp add: field_ok_def isl_widget_issues)
    qed
  qed
qed

lemma isl_editable_vectors_format_issues:
  "isl (editable_vectors_format_issues ed ls)
     = (\<not> list_all (\<lambda>(lid, layer). lid \<in> set ed \<longrightarrow> dataProvider layer \<noteq> None) ls)"
proof (induction ls)
  case Nil
  show ?case by simp
next
  case (Cons x ls)
  obtain k l where x: "x = (k, l)" by (cases x)
  show ?case
  proof (cases "k \<in> set ed")
    case False
    with Cons x show ?thesis by simp
  next
    case True
    show ?thesis
    proof (cases "dataProvider l")
      case None
      with True x show ?thesis by simp
    next
      case (Some dp)
      have "isl (bind_err (editable_vectors_format_issues ed ls)
               (\<lambda>rest. Inr ((if \<not> storageType dp = ''GPKG''
                             then [SingleLayerWarning k EDITABLE_NON_GPKG] else []) @ rest)))
            = (isl (editable_vectors_format_issues ed ls) \<or> False)"
        by (rule isl_bind_err) simp
      with Some True x Cons show ?thesis by simp
    qed
  qed
qed

lemma isl_db_schema_issues:
  "isl (db_schema_issues h p ed ls)
     = (\<not> list_all (\<lambda>(lid, layer). lid \<in> set ed \<longrightarrow> dataProvider layer \<noteq> None) ls)"
proof (induction ls)
  case Nil
  show ?case by simp
next
  case (Cons x ls)
  obtain k l where x: "x = (k, l)" by (cases x)
  show ?case
  proof (cases "k \<in> set ed")
    case False
    with Cons x show ?thesis by simp
  next
    case True
    show ?thesis
    proof (cases "dataProvider l")
      case None
      with True x show ?thesis by simp
    next
      case (Some dp)
      from Some True x Cons show ?thesis by (simp add: isl_bind_err_Inr)
    qed
  qed
qed

lemma isl_attachment_widget_issues:
  "isl (attachment_widget_issues h ed ls)
     = (\<not> list_all (\<lambda>(lid, layer). lid \<in> set ed \<longrightarrow>
                       layer_type layer = VectorLayer \<and>
                       list_all field_ok (editorWidgetSetup layer)) ls)"
proof (induction ls)
  case Nil
  show ?case by simp
next
  case (Cons x ls)
  obtain k l where x: "x = (k, l)" by (cases x)
  show ?case
  proof (cases "k \<in> set ed \<and> layer_type l = VectorLayer")
    case False
    with Cons x show ?thesis by auto
  next
    case True
    have inner: "isl (bind_err (attachment_widget_issues h ed ls) (\<lambda>rest. Inr (new @ rest)))
                 = (isl (attachment_widget_issues h ed ls) \<or> False)" for new
      by (rule isl_bind_err) simp
    have "isl (bind_err (fields_issues h k (editorWidgetSetup l))
            (\<lambda>new. bind_err (attachment_widget_issues h ed ls) (\<lambda>rest. Inr (new @ rest))))
          = (isl (fields_issues h k (editorWidgetSetup l)) \<or> isl (attachment_widget_issues h ed ls))"
      by (rule isl_bind_err) (simp add: inner)
    with True x Cons show ?thesis by (simp add: isl_fields_issues)
  qed
qed

lemma isl_pipeline_issues:
  "isl (pipeline_issues h p (\<lambda>_. [])) = (\<not> project_ok h)"
proof -
  let ?ls = "mapLayers h"
  obtain bp ed where hv: "harvest ?ls (\<lambda>_. [], []) = (bp, ed)"
    by (cases "harvest ?ls (\<lambda>_. [], [])")
  then have ed: "editable_ids h = ed" by (simp add: editable_ids_def)
  have 3: "isl (bind_err (db_schema_issues h p ed ?ls) (\<lambda>db. Inr (pre @ att @ db)))
           = (isl (db_schema_issues h p ed ?ls) \<or> False)" for pre att
    by (rule isl_bind_err) simp
  have 2: "isl (bind_err (attachment_widget_issues h ed ?ls)
              (\<lambda>att. bind_err (db_schema_issues h p ed ?ls) (\<lambda>db. Inr (f att db))))
           = (isl (attachment_widget_issues h ed ?ls) \<or> isl (db_schema_issues h p ed ?ls))" for f
  proof (rule isl_bind_err)
    fix att
    show "isl (bind_err (db_schema_issues h p ed ?ls) (\<lambda>db. Inr (f att db)))
          = isl (db_schema_issues h p ed ?ls)"
      using isl_bind_err [of "\<lambda>db. Inr (f att db)" False "db_schema_issues h p ed ?ls"] by simp
  qed
  have 1: "isl (bind_err (editable_vectors_format_issues ed ?ls)
              (\<lambda>fmt. bind_err (attachment_widget_issues h ed ?ls)
                 (\<lambda>att. bind_err (db_schema_issues h p ed ?ls) (\<lambda>db. Inr (f fmt att db)))))
           = (isl (editable_vectors_format_issues ed ?ls) \<or>
              (isl (attachment_widget_issues h ed ?ls) \<or> isl (db_schema_issues h p ed ?ls)))" for f
    by (rule isl_bind_err) (rule 2)
  have all': "list_all (layer_ok ed) ls =
      (list_all (\<lambda>(lid, layer). lid \<in> set ed \<longrightarrow> dataProvider layer \<noteq> None) ls \<and>
       list_all (\<lambda>(lid, layer). lid \<in> set ed \<longrightarrow>
                       layer_type layer = VectorLayer \<and>
                       list_all field_ok (editorWidgetSetup layer)) ls)" for ls
    by (induction ls) (auto simp: layer_ok_def)
  note all = all' [of ?ls]
  show ?thesis
    unfolding pipeline_issues_def hv prod.case project_ok_def ed all
    by (cases "snd (readEntry_Paths_Absolute h)")
       (auto simp: 1 isl_editable_vectors_format_issues isl_attachment_widget_issues
          isl_db_schema_issues)
qed

lemma run_checks_returns_iff:
  assumes single: "find_qgis_files h (proj_dir_of h p) = [f]"
      and loaded: "same_dir h f (absoluteFilePath h)"
  shows "(\<exists>iss v'. run_checks h (MerginProjectValidator_init p) = Inr (iss, v')) \<longleftrightarrow> project_ok h"
proof -
  let ?v = "MerginProjectValidator_init p"
  have m: "mp_v ?v = p" and i: "issues ?v = []" and b: "layers_by_prov ?v = (\<lambda>_. [])"
    by (simp_all add: MerginProjectValidator_init_def)
  from single have "find_qgis_files h (proj_dir_of h (mp_v ?v)) = [f]" by (simp add: m)
  from run_checks_loaded [OF this loaded]
  have run: "run_checks h ?v =
      bind_err (pipeline_issues h p (\<lambda>_. []))
        (\<lambda>new. Inr (new, loaded_validator h f new ?v))"
    by (simp add: m i b)
  have "isl (run_checks h ?v) = (isl (pipeline_issues h p (\<lambda>_. [])) \<or> False)"
    unfolding run by (rule isl_bind_err) simp
  then have "isl (run_checks h ?v) = (\<not> project_ok h)" by (simp add: isl_pipeline_issues)
  moreover have "(\<exists>iss v'. run_checks h ?v = Inr (iss, v')) = (\<not> isl (run_checks h ?v))"
    by (cases "run_checks h ?v") auto
  ultimately show ?thesis by simp
qed


lemma photo_ok: "project_ok photo_host"
  by (simp add: project_ok_def layer_ok_def field_ok_def widget_config_ok_def editable_ids_def
      check_defs host_defs)

subsection \<open>The issues of the attachment widgets in a run\<close>

lemma three_issues_of_returned_run:
  assumes run: "run_checks h (MerginProjectValidator_init p) = Inr (iss, v')"
      and single: "find_qgis_files h (proj_dir_of h p) = [f]"
      and loaded: "same_dir h f (absoluteFilePath h)"
      and layer: "(lid, layer) \<in> set (mapLayers h)" "layer_id layer = lid"
        "layer_type layer = VectorLayer" "dataProvider layer = Some dp" "can_edit dp"
      and field: "i < length (editorWidgetSetup layer)" "editorWidgetSetup layer ! i = Some w"
        "widget_type w = ''ExternalResource''"
      and cfg: "config w ''RelativeStorage'' = Some (CInt 0)"
        "config w ''DefaultRoot'' = Some (CStr root)" "isabs h root" "expression_isValid h root"
  shows "\<exists>before after.
           iss = before @ [SingleLayerWarning lid ATTACHMENT_ABSOLUTE_PATH,
                           SingleLayerWarning lid ATTACHMENT_LOCAL_PATH,
                           SingleLayerWarning lid ATTACHMENT_EXPRESSION_PATH] @ after"
proof -
  let ?v = "MerginProjectValidator_init p"
  let ?ed = "snd (harvest (mapLayers h) (\<lambda>_. [], []))"
  let ?three = "[SingleLayerWarning lid ATTACHMENT_ABSOLUTE_PATH,
                 SingleLayerWarning lid ATTACHMENT_LOCAL_PATH,
                 SingleLayerWarning lid ATTACHMENT_EXPRESSION_PATH]"
  have m: "mp_v ?v = p" and i: "issues ?v = []" and b: "layers_by_prov ?v = (\<lambda>_. [])"
    by (simp_all add: MerginProjectValidator_init_def)
  from single have "find_qgis_files h (proj_dir_of h (mp_v ?v)) = [f]" by (simp add: m)
  from run run_checks_loaded [OF this loaded]
  have "pipeline_issues h p (\<lambda>_. []) = Inr iss"
    by (auto simp: bind_err_Inr m i b)
  from pipeline_issues_parts [OF this] obtain pre att db
    where att: "attachment_widget_issues h ?ed (mapLayers h) = Inr att"
      and iss: "iss = pre @ att @ db" by blast
  from harvest_editable_mem [OF layer(1) layer(4) layer(3) layer(5)] layer(2)
  have "lid \<in> set ?ed" by simp
  from attachment_widget_issues_part [OF att layer(1) this] obtain fd pre1 post1
    where fd: "fields_issues h lid (editorWidgetSetup layer) = Inr fd"
      and att': "att = pre1 @ fd @ post1" by blast
  from fields_issues_part [OF fd field] obtain wd pre2 post2
    where wd: "widget_issues h lid (config w) = Inr wd" and fd': "fd = pre2 @ wd @ post2"
    by blast
  have "is_zero (CInt 0)" by (simp add: is_zero_def)
  from widget_issues_three [OF cfg(1) this cfg(2,3,4), of lid] wd obtain rest
    where "wd = ?three @ rest" by auto
  with iss att' fd' have "iss = (pre @ pre1 @ pre2) @ ?three @ (rest @ post2 @ post1 @ db)"
    by simp
  then show ?thesis by blast
qed

lemma hyperlink_count_of_returned_run:
  assumes run: "run_checks h (MerginProjectValidator_init p) = Inr (iss, v')"
      and single: "find_qgis_files h (proj_dir_of h p) = [f]"
      and loaded: "same_dir h f (absoluteFilePath h)"
  shows "count_list iss (SingleLayerWarning lid ATTACHMENT_HYPERLINK)
           = hyperlink_fields (editable_ids h) (mapLayers h) lid"
proof -
  let ?v = "MerginProjectValidator_init p"
  let ?ed = "snd (harvest (mapLayers h) (\<lambda>_. [], []))"
  let ?x = "SingleLayerWarning lid ATTACHMENT_HYPERLINK"
  have m: "mp_v ?v = p" and i: "issues ?v = []" and b: "layers_by_prov ?v = (\<lambda>_. [])"
    by (simp_all add: MerginProjectValidator_init_def)
  from single have "find_qgis_files h (proj_dir_of h (mp_v ?v)) = [f]" by (simp add: m)
  from run run_checks_loaded [OF this loaded]
  have "pipeline_issues h p (\<lambda>_. []) = Inr iss"
    by (auto simp: bind_err_Inr m i b)
  from pipeline_issues_parts [OF this] obtain pre att db
    where att: "attachment_widget_issues h ?ed (mapLayers h) = Inr att"
      and db: "db_schema_issues h p ?ed (mapLayers h) = Inr db"
      and iss: "iss = pre @ att @ db"
      and pre: "\<forall>x \<in> set pre. (\<exists>w k. x = MultipleLayersWarning w k) \<or>
                           (\<exists>k. x = SingleLayerWarning k EXTERNAL_SRC) \<or>
                           (\<exists>k. x = SingleLayerWarning k EDITABLE_NON_GPKG)"
    by blast
  from pre have "?x \<notin> set pre" by auto
  then have c1: "count_list pre ?x = 0" by (simp add: count_list_0_iff)
  from db_schema_issues_kind [OF db] have "?x \<notin> set db" by auto
  then have c2: "count_list db ?x = 0" by (simp add: count_list_0_iff)
  from attachment_widget_issues_hyperlink [OF att]
  have "count_list att ?x = hyperlink_fields ?ed (mapLayers h) lid" .
  with c1 c2 iss show ?thesis by (simp add: editable_ids_def)
qed

text \<open>Claim C9, as it stands, fails: the project is loaded and has an editable layer with
  an attachment widget of the kind described, but a second editable layer has an
  attachment widget whose configuration lacks \<open>RelativeStorage\<close>. The validator reads
  \<open>cfg["RelativeStorage"]\<close> without a test, the run ends with \<open>KeyError\<close> and
  returns no issue at all.\<close>

theorem attachment_widget_three_issues_counterexample:
  "find_qgis_files photo_and_link_host (proj_dir_of photo_and_link_host (Some sample_project))
     = [''/home/u/proj/proj.qgz''] \<and>
   same_dir photo_and_link_host ''/home/u/proj/proj.qgz'' (absoluteFilePath photo_and_link_host) \<and>
   mapLayers photo_and_link_host = [(''photos_2'', photo_layer), (''links_3'', link_layer)] \<and>
   layer_id photo_layer = ''photos_2'' \<and> layer_type photo_layer = VectorLayer \<and>
   dataProvider photo_layer = Some gpkg_provider \<and> can_edit gpkg_provider \<and>
   editorWidgetSetup photo_layer ! 1 = Some photo_widget \<and>
   widget_type photo_widget = ''ExternalResource'' \<and>
   config photo_widget ''RelativeStorage'' = Some (CInt 0) \<and>
   config photo_widget ''DefaultRoot'' = Some (CStr ''/photos'') \<and>
   isabs photo_and_link_host ''/photos'' \<and> expression_isValid photo_and_link_host ''/photos'' \<and>
   run_checks photo_and_link_host (MerginProjectValidator_init (Some sample_project))
     = Inl (KeyError ''RelativeStorage'')"
  by (simp add: check_defs host_defs)

text \<open>Claim C9, amended. The project is loaded (its directory holds one project file, the
  one open in QGIS) and no check raises an exception, which is the case exactly for the
  projects described by \<open>project_ok\<close>. If the project lists, under its own identifier,
  a vector layer whose provider can add features or change attribute values, and a field
  of that layer has an attachment widget with \<open>RelativeStorage\<close> equal to 0 and a
  \<open>DefaultRoot\<close> that is an absolute path and a valid expression, then the run on a
  new validator returns a list of issues, and the list contains
  \<open>ATTACHMENT_ABSOLUTE_PATH\<close>, \<open>ATTACHMENT_LOCAL_PATH\<close> and
  \<open>ATTACHMENT_EXPRESSION_PATH\<close> for that layer, one right after the other.\<close>

theorem attachment_widget_three_issues:
  assumes single: "find_qgis_files h (proj_dir_of h p) = [f]"
      and loaded: "same_dir h f (absoluteFilePath h)"
      and ok: "project_ok h"
      and layer: "(lid, layer) \<in> set (mapLayers h)" "layer_id layer = lid"
        "layer_type layer = VectorLayer" "dataProvider layer = Some dp" "can_edit dp"
      and field: "i < length (editorWidgetSetup layer)" "editorWidgetSetup layer ! i = Some w"
        "widget_type w = ''ExternalResource''"
      and cfg: "config w ''RelativeStorage'' = Some (CInt 0)"
        "config w ''DefaultRoot'' = Some (CStr root)" "isabs h root" "expression_isValid h root"
  shows "\<exists>iss v' before after.
           run_checks h (MerginProjectValidator_init p) = Inr (iss, v') \<and>
           iss = before @ [SingleLayerWarning lid ATTACHMENT_ABSOLUTE_PATH,
                           SingleLayerWarning lid ATTACHMENT_LOCAL_PATH,
                           SingleLayerWarning lid ATTACHMENT_EXPRESSION_PATH] @ after"
proof -
  from ok run_checks_returns_iff [OF single loaded] obtain iss v'
    where run: "run_checks h (MerginProjectValidator_init p) = Inr (iss, v')" by blast
  from three_issues_of_returned_run [OF run single loaded layer field cfg] run
  show ?thesis by blast
qed

theorem attachment_widget_three_issues_witness:
  "project_ok photo_host \<and>
   map_sum id fst (run_checks photo_host (MerginProjectValidator_init (Some sample_project)))
     = Inr photo_issues \<and>
   (\<exists>before after.
      photo_issues = before @ [SingleLayerWarning ''photos_2'' ATTACHMENT_ABSOLUTE_PATH,
                               SingleLayerWarning ''photos_2'' ATTACHMENT_LOCAL_PATH,
                               SingleLayerWarning ''photos_2'' ATTACHMENT_EXPRESSION_PATH] @ after)"
proof -
  have layer: "(''photos_2'', photo_layer) \<in> set (mapLayers photo_host)"
    "layer_id photo_layer = ''photos_2''" "layer_type photo_layer = VectorLayer"
    "dataProvider photo_layer = Some gpkg_provider" "can_edit gpkg_provider"
    by (simp_all add: check_defs host_defs)
  have field: "1 < length (editorWidgetSetup photo_layer)"
    "editorWidgetSetup photo_layer ! 1 = Some photo_widget"
    "widget_type photo_widget = ''ExternalResource''"
    by (simp_all add: host_defs)
  have cfg: "config photo_widget ''RelativeStorage'' = Some (CInt 0)"
    "config photo_widget ''DefaultRoot'' = Some (CStr ''/photos'')"
    "isabs photo_host ''/photos''" "expression_isValid photo_host ''/photos''"
    by (simp_all add: host_defs)
  from attachment_widget_three_issues [OF photo_single photo_loaded photo_ok layer field cfg]
  obtain iss v' before after where
    run: "run_checks photo_host (MerginProjectValidator_init (Some sample_project))
            = Inr (iss, v')"
    and iss: "iss = before @ [SingleLayerWarning ''photos_2'' ATTACHMENT_ABSOLUTE_PATH,
                              SingleLayerWarning ''photos_2'' ATTACHMENT_LOCAL_PATH,
                              SingleLayerWarning ''photos_2'' ATTACHMENT_EXPRESSION_PATH] @ after"
    by blast
  from run photo_run have same: "iss = photo_issues" by simp
  from iss have "\<exists>before after.
      photo_issues = before @ [SingleLayerWarning ''photos_2'' ATTACHMENT_ABSOLUTE_PATH,
                               SingleLayerWarning ''photos_2'' ATTACHMENT_LOCAL_PATH,
                               SingleLayerWarning ''photos_2'' ATTACHMENT_EXPRESSION_PATH] @ after"
    unfolding same by blast
  with photo_run photo_ok show ?thesis by simp
qed

text \<open>Claim C10, as it stands, fails: the one field of the editable layer has an
  attachment widget whose configuration contains \<open>DefaultRoot\<close> and \<open>UseLink\<close>, so
  the claim counts one flagged field, but the configuration lacks \<open>RelativeStorage\<close>:
  the body of the loop raises \<open>KeyError\<close> before it looks at the two keys, the run
  ends with that exception and no \<open>ATTACHMENT_HYPERLINK\<close> issue is appended.\<close>

theorem hyperlink_issue_count_counterexample:
  "find_qgis_files link_host (proj_dir_of link_host (Some sample_project))
     = [''/home/u/proj/proj.qgz''] \<and>
   same_dir link_host ''/home/u/proj/proj.qgz'' (absoluteFilePath link_host) \<and>
   mapLayers link_host = [(''links_3'', link_layer)] \<and>
   editable_ids link_host = [''links_3''] \<and>
   editorWidgetSetup link_layer = [Some link_widget] \<and>
   widget_type link_widget = ''ExternalResource'' \<and>
   config link_widget ''DefaultRoot'' = Some (CStr ''docs'') \<and>
   config link_widget ''UseLink'' = Some (CBool True) \<and>
   hyperlink_fields (editable_ids link_host) (mapLayers link_host) ''links_3'' = 1 \<and>
   widget_issues link_host ''links_3'' (config link_widget) = Inl (KeyError ''RelativeStorage'') \<and>
   run_checks link_host (MerginProjectValidator_init (Some sample_project))
     = Inl (KeyError ''RelativeStorage'')"
  by (simp add: check_defs host_defs editable_ids_def hyperlink_fields_def hyperlink_field_def)


text \<open>Claim C10, amended. The project is loaded and no check raises an exception, which
  is the case exactly for the projects described by \<open>project_ok\<close>. Then the run on a
  new validator returns a list of issues, and for every layer identifier the list holds
  as many \<open>ATTACHMENT_HYPERLINK\<close> issues for it as there are fields, in the editable
  layers listed under that identifier, with an attachment widget whose configuration
  contains both \<open>DefaultRoot\<close> and \<open>UseLink\<close>, whatever their values: one issue for
  each such field and none for any other field, in particular none when \<open>DefaultRoot\<close>
  is absent.\<close>

theorem hyperlink_issue_count:
  assumes single: "find_qgis_files h (proj_dir_of h p) = [f]"
      and loaded: "same_dir h f (absoluteFilePath h)"
      and ok: "project_ok h"
  shows "\<exists>iss v'.
           run_checks h (MerginProjectValidator_init p) = Inr (iss, v') \<and>
           count_list iss (SingleLayerWarning lid ATTACHMENT_HYPERLINK)
             = hyperlink_fields (editable_ids h) (mapLayers h) lid"
proof -
  from ok run_checks_returns_iff [OF single loaded] obtain iss v'
    where run: "run_checks h (MerginProjectValidator_init p) = Inr (iss, v')" by blast
  from hyperlink_count_of_returned_run [OF run single loaded] run
  show ?thesis by blast
qed

theorem hyperlink_issue_count_witness:
  "project_ok photo_host \<and>
   map_sum id fst (run_checks photo_host (MerginProjectValidator_init (Some sample_project)))
     = Inr photo_issues \<and>
   count_list photo_issues (SingleLayerWarning ''photos_2'' ATTACHMENT_HYPERLINK) = 1 \<and>
   hyperlink_fields (editable_ids photo_host) (mapLayers photo_host) ''photos_2'' = 1"
proof -
  from hyperlink_issue_count [OF photo_single photo_loaded photo_ok, of "''photos_2''"]
  obtain iss v' where
    run: "run_checks photo_host (MerginProjectValidator_init (Some sample_project))
            = Inr (iss, v')"
    and cnt: "count_list iss (SingleLayerWarning ''photos_2'' ATTACHMENT_HYPERLINK)
            = hyperlink_fields (editable_ids photo_host) (mapLayers photo_host) ''photos_2''"
    by blast
  from run photo_run have "iss = photo_issues" by simp
  moreover have "count_list photo_issues (SingleLayerWarning ''photos_2'' ATTACHMENT_HYPERLINK) = 1"
    by (simp add: photo_issues_def)
  ultimately show ?thesis using cnt photo_run photo_ok by simp
qed

end
